theory Spec2Isabelle
  imports Main "HOL-Library.Char_ord" "HOL-Library.List_Lexorder" "HOL-Library.Multiset"
begin

section \<open>Strings\<close>

text \<open>
  A string is a list of code units. The model covers strings whose code units lie below
  256, so that a \<^typ>\<open>char\<close> is one code unit. The relational operators of the language
  compare strings code unit by code unit, a proper prefix being smaller: this is the
  order of \<^typ>\<open>char list\<close>.
\<close>

definition lowerChar :: "char \<Rightarrow> char" where
  \<comment> \<open>\<open>toLowerCase\<close> on one code unit: A..Z, and the capital letters 192..222 but 215.\<close>
  "lowerChar c =
     (let n = (of_char c :: nat)
      in if (65 \<le> n \<and> n \<le> 90) \<or> (192 \<le> n \<and> n \<le> 214) \<or> (216 \<le> n \<and> n \<le> 222)
         then char_of (n + 32) else c)"

definition toLowerCase :: "string \<Rightarrow> string" where
  "toLowerCase s = map lowerChar s"

fun startsWith :: "string \<Rightarrow> string \<Rightarrow> bool" where
  \<comment> \<open>\<open>startsWith s p\<close> is \<open>s.startsWith(p)\<close>.\<close>
  "startsWith s [] = True"
| "startsWith [] (p # ps) = False"
| "startsWith (c # cs) (p # ps) = (c = p \<and> startsWith cs ps)"

fun js_includes :: "string \<Rightarrow> string \<Rightarrow> bool" where
  \<comment> \<open>\<open>js_includes s p\<close> is \<open>s.includes(p)\<close>: \<open>p\<close> occurs in \<open>s\<close> as a block.\<close>
  "js_includes [] p = (p = [])"
| "js_includes (c # cs) p = (startsWith (c # cs) p \<or> js_includes cs p)"

definition substring07 :: "string \<Rightarrow> string" where
  \<comment> \<open>\<open>s.substring(0, 7)\<close>\<close>
  "substring07 s = take 7 s"

subsection \<open>Decimal numerals\<close>

definition digitChar :: "nat \<Rightarrow> char" where
  "digitChar d = char_of (48 + d)"

fun digitsOf :: "nat \<Rightarrow> nat \<Rightarrow> string" where
  \<comment> \<open>\<open>digitsOf w n\<close>: the last \<open>w\<close> decimal digits of \<open>n\<close>, zero padded.\<close>
  "digitsOf 0 n = []"
| "digitsOf (Suc w) n = digitsOf w (n div 10) @ [digitChar (n mod 10)]"

definition isDigit :: "char \<Rightarrow> bool" where
  "isDigit c = (48 \<le> (of_char c :: nat) \<and> (of_char c :: nat) \<le> 57)"

definition decimalValue :: "string \<Rightarrow> nat" where
  "decimalValue s = foldl (\<lambda>a c. 10 * a + ((of_char c :: nat) - 48)) 0 s"

definition isArrayIndex :: "string \<Rightarrow> bool" where
  \<comment> \<open>A property key is an array index when it is the canonical decimal numeral of an
      integer from 0 to \<open>2^32 - 2\<close>, which is 4294967294: a numeral of fewer than ten
      digits, or one of ten digits that is not above that one in the order of strings.\<close>
  "isArrayIndex k =
     (k \<noteq> [] \<and> list_all isDigit k \<and> (if hd k = CHR ''0'' then length k = 1 else True)
      \<and> (length k < 10 \<or> length k = 10 \<and> k \<le> ''4294967294''))"

section \<open>Values, records and objects\<close>

text \<open>
  A field of a certification record holds a string or \<open>null\<close>. A record is the list of
  its own fields, as decoded from the JSON text of the data service; a field that is
  absent reads as \<open>undefined\<close>.
\<close>

datatype jval = JNull | JStr string

type_synonym cert = "(string \<times> jval) list"

definition field :: "cert \<Rightarrow> string \<Rightarrow> jval option" where
  \<comment> \<open>\<open>cert[name]\<close>; \<open>None\<close> is \<open>undefined\<close>. None of the names that the handlers read in a
      record is defined by \<open>Object.prototype\<close>.\<close>
  "field c name = map_of c name"

fun String_jval :: "jval \<Rightarrow> string" where
  \<comment> \<open>\<open>String(value)\<close>\<close>
  "String_jval JNull = ''null''"
| "String_jval (JStr s) = s"

fun orElse :: "jval option \<Rightarrow> string \<Rightarrow> string" where
  \<comment> \<open>\<open>v || d\<close> for a field value \<open>v\<close> and a non-empty default string \<open>d\<close>: \<open>undefined\<close>,
      \<open>null\<close> and the empty string are falsy.\<close>
  "orElse None d = d"
| "orElse (Some JNull) d = d"
| "orElse (Some (JStr s)) d = (if s = [] then d else s)"

text \<open>
  The counts that the handlers keep in objects are numbers as long as the code adds to
  numbers. In the summary, \<open>+ 1\<close> on a value that is not a number appends to its string
  conversion (\<open>tally\<close>); in the monthly trends, \<open>++\<close> on such a value gives \<open>NaN\<close>
  (\<open>counter\<close>).
\<close>

datatype tally = Count nat | Text string

datatype counter = Number nat | NaN

text \<open>
  An object created by \<open>{}\<close> is the list of its own properties in the order in which the
  language enumerates them: array-index keys first, in ascending numeric order, then the
  other keys in the order of their creation. Reading a key that the object does not own
  continues in \<open>Object.prototype\<close>.
\<close>

type_synonym 'v obj = "(string \<times> 'v) list"

definition objectPrototypeMethods :: "string list" where
  "objectPrototypeMethods =
     [''constructor'', ''hasOwnProperty'', ''isPrototypeOf'', ''propertyIsEnumerable'',
      ''toLocaleString'', ''toString'', ''valueOf'', ''__defineGetter__'',
      ''__defineSetter__'', ''__lookupGetter__'', ''__lookupSetter__'']"

definition nativeFunctionText :: "string \<Rightarrow> string" where
  \<comment> \<open>The string conversion of a built-in function, as the V8 engine prints it.\<close>
  "nativeFunctionText name = ''function '' @ name @ ''() { [native code] }''"

definition inheritedText :: "string \<Rightarrow> string option" where
  \<comment> \<open>The string conversion of the value that \<open>Object.prototype\<close> holds under a key;
      \<open>None\<close> when it holds nothing there. Every such value is an object or a function.\<close>
  "inheritedText k =
     (if k = ''__proto__'' then Some ''[object Object]''
      else if k = ''constructor'' then Some (nativeFunctionText ''Object'')
      else if k \<in> set objectPrototypeMethods then Some (nativeFunctionText k)
      else None)"

datatype 'v got = Own 'v | Inherited string | Undefined

definition obj_get :: "'v obj \<Rightarrow> string \<Rightarrow> 'v got" where
  \<comment> \<open>\<open>o[k]\<close>\<close>
  "obj_get ob k =
     (case map_of ob k of
        Some v \<Rightarrow> Own v
      | None \<Rightarrow> (case inheritedText k of Some t \<Rightarrow> Inherited t | None \<Rightarrow> Undefined))"

definition indexLess :: "string \<Rightarrow> string \<Rightarrow> bool" where
  \<comment> \<open>The numeric order of two array indices: they are canonical numerals, so the
      shorter one is smaller and two of the same length compare as strings.\<close>
  "indexLess k k' = (length k < length k' \<or> length k = length k' \<and> k < k')"

fun insertProp :: "string \<Rightarrow> 'v \<Rightarrow> 'v obj \<Rightarrow> 'v obj" where
  \<comment> \<open>The place of a new own property in the enumeration order.\<close>
  "insertProp k v [] = [(k, v)]"
| "insertProp k v ((k', v') # rest) =
     (if isArrayIndex k \<and> (if isArrayIndex k' then indexLess k k' else True)
      then (k, v) # (k', v') # rest
      else (k', v') # insertProp k v rest)"

definition obj_set :: "'v obj \<Rightarrow> string \<Rightarrow> 'v \<Rightarrow> 'v obj" where
  \<comment> \<open>\<open>o[k] = v\<close>. The key \<open>__proto__\<close> is an accessor of \<open>Object.prototype\<close>, whose setter
      ignores a value that is not an object; the handlers assign no object under it, as
      they assign a bucket only under a key that the object owns or that reads as
      \<open>undefined\<close>. Any other key becomes or stays an own property.\<close>
  "obj_set ob k v =
     (if k = ''__proto__'' then ob
      else if k \<in> fst ` set ob then map (\<lambda>(k', v'). if k' = k then (k', v) else (k', v')) ob
      else insertProp k v ob)"

definition Object_keys :: "'v obj \<Rightarrow> string list" where
  "Object_keys ob = map fst ob"

definition Object_values :: "(string \<times> 'v) list \<Rightarrow> 'v list" where
  "Object_values ob = map snd ob"

section \<open>Errors, promises and responses\<close>

datatype error =
    Error string
  | TypeError string
  | ReferenceError string
  | SyntaxError string

fun message :: "error \<Rightarrow> string" where
  "message (Error m) = m"
| "message (TypeError m) = m"
| "message (ReferenceError m) = m"
| "message (SyntaxError m) = m"

text \<open>
  An \<open>async\<close> function never throws to its caller: it returns a promise, which is
  fulfilled with the returned value or rejected with the error thrown in its body.
\<close>

datatype 'a promise = Fulfilled 'a | Rejected error

fun await :: "'a promise \<Rightarrow> error + 'a" where
  \<comment> \<open>\<open>await p\<close> inside a body: the value, or the rejection thrown at that place.\<close>
  "await (Fulfilled v) = Inr v"
| "await (Rejected e) = Inl e"

fun async :: "error + 'a \<Rightarrow> 'a promise" where
  \<comment> \<open>The promise of an \<open>async\<close> function whose body ends in a value or in a throw.\<close>
  "async (Inr v) = Fulfilled v"
| "async (Inl e) = Rejected e"

record bucket =
  newlyCertified :: "counter obj"
  lapsed :: nat
  expired :: nat
  ethicsViolations :: nat

record summary =
  total :: nat
  byCredential :: "tally obj"
  byCounty :: "tally obj"
  byCity :: "tally obj"

record envelope =
  draw :: "string option"
  recordsTotal :: nat
  recordsFiltered :: nat
  data :: "cert list"

text \<open>The body of a response is kept as the value that \<open>JSON.stringify\<close> is applied to.\<close>

datatype body =
    NoBody
  | CertificationsJson "cert list"
  | SummaryJson summary
  | TrendsJson "bucket obj"
  | EnvelopeJson envelope
  | ErrorJson string "string option"

record response =
  status :: nat
  headers :: "(string \<times> string) list"
  body :: body

section \<open>The data service\<close>

definition CERTIFICATIONS_TABLE_ID :: string where
  "CERTIFICATIONS_TABLE_ID = ''@u5qvrik517o''"

record env =
  NOCODB_BASE_URL :: string
  NOCODB_API_TOKEN :: string

text \<open>
  What the data service answers is an input of the model. The JSON decoding of the body
  is not modelled: a reply carries its text and what \<open>response.json()\<close> makes of it,
  which is a syntax error or, as the code assumes of the service, an object whose \<open>list\<close>
  property is an array of records.
\<close>

datatype json_doc = Unparsable | RecordList "cert list"

record reply =
  reply_status :: nat
  reply_statusText :: string
  reply_text :: string
  reply_json :: json_doc

datatype fetch_result = NetworkFailure string | Replied reply

type_synonym network = "string \<Rightarrow> string \<Rightarrow> fetch_result"
  \<comment> \<open>the result of \<open>fetch(url, {headers: {'xc-token': token}})\<close>\<close>

function decimal :: "nat \<Rightarrow> string" where
  \<comment> \<open>the string conversion of a non-negative integer\<close>
  "decimal n = (if n < 10 then [digitChar n] else decimal (n div 10) @ [digitChar (n mod 10)])"
  by pat_completeness auto
termination
  by (relation "measure id") auto

declare decimal.simps [simp del]

fun queryStringOf :: "(string \<times> string) list \<Rightarrow> string" where
  \<comment> \<open>\<open>new URLSearchParams(queryParams).toString()\<close>, for names and values that need no
      escaping (the handlers pass \<open>limit=10000\<close> only)\<close>
  "queryStringOf [] = []"
| "queryStringOf [(k, v)] = k @ ''='' @ v"
| "queryStringOf ((k, v) # rest) = k @ ''='' @ v @ ''&'' @ queryStringOf rest"

definition ok :: "reply \<Rightarrow> bool" where
  "ok r = (200 \<le> reply_status r \<and> reply_status r \<le> 299)"

definition fetchFromNocoDB ::
  "network \<Rightarrow> env \<Rightarrow> string \<Rightarrow> (string \<times> string) list \<Rightarrow> cert list promise" where
  "fetchFromNocoDB net env tableId queryParams =
     (let queryString = queryStringOf queryParams;
          queryString = (if queryString \<noteq> [] then ''?'' @ queryString else queryString);
          nocodbUrl = NOCODB_BASE_URL env @ tableId @ ''/records'' @ queryString
      in case net nocodbUrl (NOCODB_API_TOKEN env) of
           NetworkFailure m \<Rightarrow> Rejected (TypeError m)
         | Replied r \<Rightarrow>
             if \<not> ok r
             then Rejected (Error (''Failed to fetch from NocoDB: '' @ decimal (reply_status r)
                                    @ '' - '' @ reply_statusText r @ '' - '' @ reply_text r))
             else (case reply_json r of
                     Unparsable \<Rightarrow> Rejected (SyntaxError ''Unexpected token'')
                   | RecordList rs \<Rightarrow> Fulfilled rs))"

definition fetchSnapshot :: "network \<Rightarrow> env \<Rightarrow> cert list promise" where
  \<comment> \<open>\<open>fetchFromNocoDB(env, CERTIFICATIONS_TABLE_ID, { limit: 10000 })\<close>, as every handler
      calls it\<close>
  "fetchSnapshot net env =
     fetchFromNocoDB net env CERTIFICATIONS_TABLE_ID [(''limit'', ''10000'')]"

section \<open>The handlers\<close>

subsection \<open>\<open>fetchAllCertifications\<close>\<close>

definition fetchAllCertifications ::
  "network \<Rightarrow> env \<Rightarrow> (string \<times> string) list \<Rightarrow> response promise" where
  "fetchAllCertifications net env hdrs =
     async (case await (fetchSnapshot net env) of
              Inl e \<Rightarrow> Inl e
            | Inr allCertifications \<Rightarrow>
                Inr \<lparr>status = 200, headers = hdrs, body = CertificationsJson allCertifications\<rparr>)"

subsection \<open>\<open>getCertificationsSummary\<close>\<close>

fun plusOne :: "tally got \<Rightarrow> tally" where
  \<comment> \<open>\<open>(x || 0) + 1\<close>\<close>
  "plusOne (Own (Count n)) = Count (n + 1)"
| "plusOne (Own (Text s)) = (if s = [] then Count 1 else Text (s @ ''1''))"
| "plusOne (Inherited t) = Text (t @ ''1'')"
| "plusOne Undefined = Count 1"

definition countUnder :: "tally obj \<Rightarrow> string \<Rightarrow> tally obj" where
  \<comment> \<open>\<open>o[k] = (o[k] || 0) + 1\<close>\<close>
  "countUnder ob k = obj_set ob k (plusOne (obj_get ob k))"

definition summaryStep :: "summary \<Rightarrow> cert \<Rightarrow> summary" where
  \<comment> \<open>the body of the \<open>forEach\<close> in \<open>getCertificationsSummary\<close>\<close>
  "summaryStep s cert =
     (let credential = orElse (field cert ''CREDENTIAL'') ''Unknown'';
          county = orElse (field cert ''COUNTY'') ''Unknown'';
          city = orElse (field cert ''CITY'') ''Unknown''
      in s\<lparr>byCredential := countUnder (byCredential s) credential,
            byCounty := countUnder (byCounty s) county,
            byCity := countUnder (byCity s) city\<rparr>)"

definition summarize :: "cert list \<Rightarrow> summary" where
  \<comment> \<open>the summary object built in \<open>getCertificationsSummary\<close>\<close>
  "summarize allCertifications =
     foldl summaryStep
       \<lparr>total = length allCertifications, byCredential = [], byCounty = [], byCity = []\<rparr>
       allCertifications"

definition getCertificationsSummary ::
  "network \<Rightarrow> env \<Rightarrow> (string \<times> string) list \<Rightarrow> response promise" where
  "getCertificationsSummary net env hdrs =
     async (case await (fetchSnapshot net env) of
              Inl e \<Rightarrow> Inl e
            | Inr allCertifications \<Rightarrow>
                Inr \<lparr>status = 200, headers = hdrs,
                     body = SummaryJson (summarize allCertifications)\<rparr>)"

subsection \<open>\<open>getMonthlyTrends\<close>\<close>

text \<open>
  The handler reads the clock with \<open>new Date()\<close>. The model takes one reading for the whole
  request, as the calendar year and the month (0 to 11) of that instant; the runtime
  keeps local time in UTC, which is also the zone of \<open>toISOString\<close>. How the engine reads
  a date string is an input of the model: \<open>dateOf s\<close> is the pair of \<open>getFullYear()\<close> and
  \<open>getMonth()\<close> of \<open>new Date(s)\<close>, and \<open>None\<close> when that is an invalid date.
\<close>

record instant =
  fullYear :: int
  monthIndex :: nat

type_synonym dateParser = "string \<Rightarrow> (int \<times> nat) option"

definition isoMonth :: "instant \<Rightarrow> string" where
  \<comment> \<open>\<open>getMonthEntry(new Date().toISOString())\<close>: the first seven code units of the ISO
      rendering, whose year has four digits from 0 to 9999 and a sign and six digits
      otherwise\<close>
  "isoMonth now =
     substring07
       ((if 0 \<le> fullYear now \<and> fullYear now \<le> 9999 then digitsOf 4 (nat (fullYear now))
         else (if fullYear now < 0 then ''-'' else ''+'') @ digitsOf 6 (nat \<bar>fullYear now\<bar>))
        @ ''-'' @ digitsOf 2 (monthIndex now + 1))"

fun getMonthEntry :: "jval option \<Rightarrow> string option" where
  \<comment> \<open>\<open>None\<close> is the \<open>null\<close> that the helper returns for a falsy date.\<close>
  "getMonthEntry None = None"
| "getMonthEntry (Some JNull) = None"
| "getMonthEntry (Some (JStr dateStr)) = (if dateStr = [] then None else Some (substring07 dateStr))"

definition emptyBucket :: bucket where
  "emptyBucket = \<lparr>newlyCertified = [], lapsed = 0, expired = 0, ethicsViolations = 0\<rparr>"

definition ensureBucket :: "bucket obj \<Rightarrow> string \<Rightarrow> bucket obj" where
  \<comment> \<open>\<open>if (!monthlyData[m]) monthlyData[m] = {...}\<close>: an own bucket and an inherited
      value are both truthy.\<close>
  "ensureBucket monthlyData m =
     (case obj_get monthlyData m of
        Undefined \<Rightarrow> obj_set monthlyData m emptyBucket
      | _ \<Rightarrow> monthlyData)"

fun truthy :: "counter got \<Rightarrow> bool" where
  "truthy (Own (Number n)) = (n \<noteq> 0)"
| "truthy (Own NaN) = False"
| "truthy (Inherited t) = True"
| "truthy Undefined = False"

fun incremented :: "counter got \<Rightarrow> counter" where
  \<comment> \<open>the value that \<open>x++\<close> stores\<close>
  "incremented (Own (Number n)) = Number (n + 1)"
| "incremented (Own NaN) = NaN"
| "incremented (Inherited t) = NaN"
| "incremented Undefined = NaN"

definition certify :: "counter obj \<Rightarrow> string \<Rightarrow> counter obj" where
  \<comment> \<open>\<open>if (!nc[credential]) nc[credential] = 0; nc[credential]++\<close>\<close>
  "certify nc credential =
     (let nc1 = (if \<not> truthy (obj_get nc credential) then obj_set nc credential (Number 0) else nc)
      in obj_set nc1 credential (incremented (obj_get nc1 credential)))"

definition inBucket :: "bucket obj \<Rightarrow> string \<Rightarrow> (bucket \<Rightarrow> bucket) \<Rightarrow> bucket obj" where
  \<comment> \<open>\<open>monthlyData[m].counter++\<close>: when \<open>monthlyData[m]\<close> is a function inherited from the
      prototype, the increment lands on that function and \<open>monthlyData\<close> keeps its
      buckets.\<close>
  "inBucket monthlyData m f =
     (case obj_get monthlyData m of
        Own b \<Rightarrow> obj_set monthlyData m (f b)
      | _ \<Rightarrow> monthlyData)"

definition statusIncludes :: "jval option \<Rightarrow> string \<Rightarrow> bool" where
  \<comment> \<open>\<open>status && status.toLowerCase().includes(word)\<close>\<close>
  "statusIncludes st word =
     (case st of
        Some (JStr s) \<Rightarrow> s \<noteq> [] \<and> js_includes (toLowerCase s) word
      | _ \<Rightarrow> False)"

definition newCertification :: "bucket obj \<Rightarrow> string option \<Rightarrow> string \<Rightarrow> error + bucket obj" where
  \<comment> \<open>lines 156 to 160\<close>
  "newCertification monthlyData issueMonth credential =
     (case issueMonth of
        None \<Rightarrow> Inr monthlyData
      | Some m \<Rightarrow>
          (let md = ensureBucket monthlyData m
           in case obj_get md m of
                Own b \<Rightarrow>
                  Inr (obj_set md m (b\<lparr>newlyCertified := certify (newlyCertified b) credential\<rparr>))
              | _ \<Rightarrow>
                  Inl (TypeError (''Cannot read properties of undefined (reading ''
                                  @ [CHR 0x27] @ credential @ [CHR 0x27] @ '')''))))"

definition expiration ::
  "instant \<Rightarrow> dateParser \<Rightarrow> bucket obj \<Rightarrow> jval option \<Rightarrow> jval option \<Rightarrow> bucket obj" where
  \<comment> \<open>lines 163 to 182\<close>
  "expiration now dateOf monthlyData expDate st =
     (case getMonthEntry expDate of
        None \<Rightarrow> monthlyData
      | Some expirationMonth \<Rightarrow>
          (let md1 = ensureBucket monthlyData expirationMonth;
               expDt = dateOf (orElse expDate []);
               md2 = (if expDt = Some (fullYear now, monthIndex now) \<and> st \<noteq> Some (JStr ''Active'')
                      then inBucket md1 expirationMonth (\<lambda>b. b\<lparr>expired := expired b + 1\<rparr>)
                      else md1)
           in if statusIncludes st ''lapsed''
              then inBucket (ensureBucket md2 expirationMonth) expirationMonth
                     (\<lambda>b. b\<lparr>lapsed := lapsed b + 1\<rparr>)
              else md2))"

definition ethics :: "instant \<Rightarrow> bucket obj \<Rightarrow> string option \<Rightarrow> jval option \<Rightarrow> bucket obj" where
  \<comment> \<open>lines 185 to 189\<close>
  "ethics now monthlyData issueMonth st =
     (if statusIncludes st ''ethics''
      then (let violationMonth = (case issueMonth of Some m \<Rightarrow> m | None \<Rightarrow> isoMonth now)
            in inBucket (ensureBucket monthlyData violationMonth) violationMonth
                 (\<lambda>b. b\<lparr>ethicsViolations := ethicsViolations b + 1\<rparr>))
      else monthlyData)"

definition trendStep ::
  "instant \<Rightarrow> dateParser \<Rightarrow> bucket obj \<Rightarrow> cert \<Rightarrow> error + bucket obj" where
  \<comment> \<open>the body of the \<open>forEach\<close> in \<open>getMonthlyTrends\<close>\<close>
  "trendStep now dateOf monthlyData cert =
     (let issueDate = field cert ''ISSUE DATE'';
          expDate = field cert ''EXP DATE'';
          st = field cert ''STATUS'';
          credential = orElse (field cert ''CREDENTIAL'') ''Unknown'';
          issueMonth = getMonthEntry issueDate
      in case newCertification monthlyData issueMonth credential of
           Inl e \<Rightarrow> Inl e
         | Inr md \<Rightarrow> Inr (ethics now (expiration now dateOf md expDate st) issueMonth st))"

fun forEachTrend ::
  "instant \<Rightarrow> dateParser \<Rightarrow> bucket obj \<Rightarrow> cert list \<Rightarrow> error + bucket obj" where
  "forEachTrend now dateOf monthlyData [] = Inr monthlyData"
| "forEachTrend now dateOf monthlyData (cert # certs) =
     (case trendStep now dateOf monthlyData cert of
        Inl e \<Rightarrow> Inl e
      | Inr md \<Rightarrow> forEachTrend now dateOf md certs)"

definition copyMonth :: "bucket obj \<Rightarrow> bucket obj \<Rightarrow> string \<Rightarrow> bucket obj" where
  \<comment> \<open>\<open>formattedMonthlyData[month] = monthlyData[month]\<close>, for an own key \<open>month\<close>\<close>
  "copyMonth monthlyData formattedMonthlyData month =
     (case obj_get monthlyData month of
        Own b \<Rightarrow> obj_set formattedMonthlyData month b
      | _ \<Rightarrow> formattedMonthlyData)"

definition formatMonthlyData :: "bucket obj \<Rightarrow> bucket obj" where
  \<comment> \<open>lines 193 to 197: the keys sorted as strings, then copied in that order into a new
      object\<close>
  "formatMonthlyData monthlyData =
     (let sortedMonths = sort (Object_keys monthlyData)
      in foldl (copyMonth monthlyData) [] sortedMonths)"

definition buildMonthlyTrends :: "instant \<Rightarrow> dateParser \<Rightarrow> cert list \<Rightarrow> error + bucket obj" where
  \<comment> \<open>the object that \<open>getMonthlyTrends\<close> serialises\<close>
  "buildMonthlyTrends now dateOf allCertifications =
     (case forEachTrend now dateOf [] allCertifications of
        Inl e \<Rightarrow> Inl e
      | Inr monthlyData \<Rightarrow> Inr (formatMonthlyData monthlyData))"

definition getMonthlyTrends ::
  "instant \<Rightarrow> dateParser \<Rightarrow> network \<Rightarrow> env \<Rightarrow> (string \<times> string) list \<Rightarrow> response promise" where
  "getMonthlyTrends now dateOf net env hdrs =
     async (case await (fetchSnapshot net env) of
              Inl e \<Rightarrow> Inl e
            | Inr allCertifications \<Rightarrow>
                (case buildMonthlyTrends now dateOf allCertifications of
                   Inl e \<Rightarrow> Inl e
                 | Inr formattedMonthlyData \<Rightarrow>
                     Inr \<lparr>status = 200, headers = hdrs, body = TrendsJson formattedMonthlyData\<rparr>))"

subsection \<open>\<open>getTableData\<close>\<close>

text \<open>
  A parsed URL is its path and the name and value pairs that \<open>URLSearchParams\<close> decodes
  from its query. A number read from the query is an integer or \<open>NaN\<close> (\<open>None\<close>); the
  integers are exact, as the numbers of the language are up to \<open>2^53\<close>, far beyond the
  length of any array.
\<close>

record url =
  pathname :: string
  searchParams :: "(string \<times> string) list"

record request =
  httpMethod :: string
  requestUrl :: url

definition getParam :: "(string \<times> string) list \<Rightarrow> string \<Rightarrow> string option" where
  \<comment> \<open>\<open>urlParams.get(name)\<close>: the first value under the name, or \<open>null\<close>\<close>
  "getParam urlParams name = map_of urlParams name"

definition isWhiteSpace :: "char \<Rightarrow> bool" where
  "isWhiteSpace c = ((of_char c :: nat) \<in> {9, 10, 11, 12, 13, 32, 160})"

definition digitValue :: "char \<Rightarrow> nat option" where
  \<comment> \<open>the value of a digit in a radix up to 36\<close>
  "digitValue c =
     (let n = (of_char c :: nat)
      in if 48 \<le> n \<and> n \<le> 57 then Some (n - 48)
         else if 97 \<le> n \<and> n \<le> 122 then Some (n - 87)
         else if 65 \<le> n \<and> n \<le> 90 then Some (n - 55)
         else None)"

definition isRadixDigit :: "nat \<Rightarrow> char \<Rightarrow> bool" where
  "isRadixDigit radix c = (case digitValue c of Some d \<Rightarrow> d < radix | None \<Rightarrow> False)"

definition radixValue :: "nat \<Rightarrow> string \<Rightarrow> nat" where
  "radixValue radix ds = foldl (\<lambda>a c. radix * a + (case digitValue c of Some d \<Rightarrow> d | None \<Rightarrow> 0)) 0 ds"

definition parseInt :: "string \<Rightarrow> int option" where
  \<comment> \<open>\<open>parseInt(s)\<close> without a radix: leading white space, a sign, a \<open>0x\<close> prefix for
      radix 16, then the longest run of digits; \<open>NaN\<close> when there is no digit\<close>
  "parseInt s =
     (let s1 = dropWhile isWhiteSpace s;
          negative = startsWith s1 ''-'';
          s2 = (if startsWith s1 ''-'' \<or> startsWith s1 ''+'' then tl s1 else s1);
          hex = (startsWith s2 ''0x'' \<or> startsWith s2 ''0X'');
          radix = (if hex then 16 else 10);
          s3 = (if hex then drop 2 s2 else s2);
          ds = takeWhile (isRadixDigit radix) s3
      in if ds = [] then None
         else Some (if negative then - int (radixValue radix ds) else int (radixValue radix ds)))"

fun orString :: "string option \<Rightarrow> string \<Rightarrow> string" where
  \<comment> \<open>\<open>p || d\<close> for a query value \<open>p\<close>\<close>
  "orString None d = d"
| "orString (Some s) d = (if s = [] then d else s)"

fun addNumbers :: "int option \<Rightarrow> int option \<Rightarrow> int option" where
  \<comment> \<open>\<open>a + b\<close> on numbers\<close>
  "addNumbers (Some a) (Some b) = Some (a + b)"
| "addNumbers _ _ = None"

definition relativeIndex :: "int option \<Rightarrow> nat \<Rightarrow> nat" where
  \<comment> \<open>how \<open>slice\<close> reads a bound: \<open>NaN\<close> is 0, a negative bound counts from the end, and
      the result is clamped to the array\<close>
  "relativeIndex b n =
     (case b of
        None \<Rightarrow> 0
      | Some i \<Rightarrow> if i < 0 then nat (max (int n + i) 0) else nat (min i (int n)))"

definition slice :: "'a list \<Rightarrow> int option \<Rightarrow> int option \<Rightarrow> 'a list" where
  \<comment> \<open>\<open>xs.slice(from, to)\<close>\<close>
  "slice xs from to =
     (let k = relativeIndex from (length xs); final = relativeIndex to (length xs)
      in take (final - k) (drop k xs))"

record tableParams =
  p_draw :: "string option"
  p_start :: "int option"
  p_length :: "int option"
  p_searchValue :: string
  p_orderColumnIndex :: "string option"
  p_orderDirection :: "string option"

definition readTableParams :: "(string \<times> string) list \<Rightarrow> tableParams" where
  \<comment> \<open>lines 206 to 211\<close>
  "readTableParams urlParams =
     \<lparr>p_draw = getParam urlParams ''draw'',
      p_start = parseInt (orString (getParam urlParams ''start'') ''0''),
      p_length = parseInt (orString (getParam urlParams ''length'') ''10''),
      p_searchValue = orString (getParam urlParams ''search[value]'') [],
      p_orderColumnIndex = getParam urlParams ''order[0][column]'',
      p_orderDirection = getParam urlParams ''order[0][dir]''\<rparr>"

definition matchesSearch :: "string \<Rightarrow> cert \<Rightarrow> bool" where
  \<comment> \<open>the predicate of the filter, lines 222 to 224\<close>
  "matchesSearch searchValue cert =
     list_ex (\<lambda>v. js_includes (toLowerCase (String_jval v)) (toLowerCase searchValue))
       (Object_values cert)"

definition applySearch :: "string \<Rightarrow> cert list \<Rightarrow> cert list" where
  \<comment> \<open>lines 217 to 226\<close>
  "applySearch searchValue allCertifications =
     (if searchValue \<noteq> [] then filter (matchesSearch searchValue) allCertifications
      else allCertifications)"

definition columns :: "string list" where
  "columns = [''Id'', ''SCRAPE ORDER'', ''NAME'', ''CITY'', ''CREDENTIAL'', ''NUMBER'',
              ''ISSUE DATE'', ''EXP DATE'', ''STATUS'', ''COUNTY'', ''REGION'']"

definition arrayPrototypeMethods :: "string list" where
  \<comment> \<open>the methods of \<open>Array.prototype\<close> in ECMAScript 2023\<close>
  "arrayPrototypeMethods =
     [''at'', ''concat'', ''copyWithin'', ''entries'', ''every'', ''fill'', ''filter'', ''find'',
      ''findIndex'', ''findLast'', ''findLastIndex'', ''flat'', ''flatMap'', ''forEach'',
      ''includes'', ''indexOf'', ''join'', ''keys'', ''lastIndexOf'', ''map'', ''pop'', ''push'',
      ''reduce'', ''reduceRight'', ''reverse'', ''shift'', ''slice'', ''some'', ''sort'',
      ''splice'', ''toLocaleString'', ''toReversed'', ''toSorted'', ''toSpliced'', ''toString'',
      ''unshift'', ''values'', ''with'']"

definition columnAt :: "string \<Rightarrow> string option" where
  \<comment> \<open>\<open>columns[orderColumnIndex]\<close> as a property key, for the string taken from the query.
      An array index reads the element or \<open>undefined\<close> (\<open>None\<close>). Any other key reads what
      the array or its prototypes hold under that name, or \<open>undefined\<close>: the number 11
      under \<open>length\<close>, the empty \<open>Array.prototype\<close> under \<open>__proto__\<close>, and functions. Such a
      value is truthy, and as a property key it is its string conversion.\<close>
  "columnAt orderColumnIndex =
     (if isArrayIndex orderColumnIndex
      then (if decimalValue orderColumnIndex < length columns
            then Some (columns ! decimalValue orderColumnIndex) else None)
      else if orderColumnIndex = ''length'' then Some (decimal (length columns))
      else if orderColumnIndex = ''__proto__'' then Some []
      else if orderColumnIndex = ''constructor'' then Some (nativeFunctionText ''Array'')
      else if orderColumnIndex \<in> set arrayPrototypeMethods \<union> set objectPrototypeMethods
      then Some (nativeFunctionText orderColumnIndex)
      else None)"

definition sortKey :: "string \<Rightarrow> cert \<Rightarrow> string" where
  \<comment> \<open>\<open>String(a[sortColumnName] || '').toLowerCase()\<close>\<close>
  "sortKey sortColumnName a = toLowerCase (orElse (field a sortColumnName) [])"

definition compareBy :: "string \<Rightarrow> string \<Rightarrow> cert \<Rightarrow> cert \<Rightarrow> int" where
  \<comment> \<open>the comparator, lines 235 to 242\<close>
  "compareBy sortColumnName orderDirection a b =
     (let valA = sortKey sortColumnName a; valB = sortKey sortColumnName b
      in if valA < valB then (if orderDirection = ''asc'' then - 1 else 1)
         else if valA > valB then (if orderDirection = ''asc'' then 1 else - 1)
         else 0)"

text \<open>
  \<open>Array.prototype.sort\<close> is stable, and for a comparator that is consistent, as this one
  is, the result is determined. The model computes it by insertion: an element stays
  before the elements that follow it in the array unless the comparator puts it after.
\<close>

fun insertBy :: "('a \<Rightarrow> 'a \<Rightarrow> int) \<Rightarrow> 'a \<Rightarrow> 'a list \<Rightarrow> 'a list" where
  "insertBy cmp x [] = [x]"
| "insertBy cmp x (y # ys) = (if cmp x y \<le> 0 then x # y # ys else y # insertBy cmp x ys)"

definition Array_sort :: "('a \<Rightarrow> 'a \<Rightarrow> int) \<Rightarrow> 'a list \<Rightarrow> 'a list" where
  "Array_sort cmp xs = foldr (insertBy cmp) xs []"

definition applySort :: "string option \<Rightarrow> string option \<Rightarrow> cert list \<Rightarrow> cert list" where
  \<comment> \<open>lines 229 to 244\<close>
  "applySort orderColumnIndex orderDirection filteredData =
     (case (orderColumnIndex, orderDirection) of
        (Some i, Some dir) \<Rightarrow>
          if dir \<noteq> []
          then (case columnAt i of
                  Some sortColumnName \<Rightarrow> Array_sort (compareBy sortColumnName dir) filteredData
                | None \<Rightarrow> filteredData)
          else filteredData
      | _ \<Rightarrow> filteredData)"

definition queryTable :: "tableParams \<Rightarrow> cert list \<Rightarrow> envelope" where
  \<comment> \<open>lines 217 to 257: filter, sort, page, envelope\<close>
  "queryTable p allCertifications =
     (let filteredData = applySearch (p_searchValue p) allCertifications;
          filteredData = applySort (p_orderColumnIndex p) (p_orderDirection p) filteredData;
          totalRecords = length allCertifications;
          recordsFiltered = length filteredData;
          paginatedData = slice filteredData (p_start p) (addNumbers (p_start p) (p_length p))
      in \<lparr>draw = p_draw p, recordsTotal = totalRecords, recordsFiltered = recordsFiltered,
          data = paginatedData\<rparr>)"

definition tableData ::
  "url \<Rightarrow> network \<Rightarrow> env \<Rightarrow> (string \<times> string) list \<Rightarrow> response promise" where
  \<comment> \<open>the body of \<open>getTableData\<close>, for a value of the identifier \<open>url\<close>\<close>
  "tableData u net env hdrs =
     (let p = readTableParams (searchParams u)
      in async (case await (fetchSnapshot net env) of
                  Inl e \<Rightarrow> Inl e
                | Inr allCertifications \<Rightarrow>
                    Inr \<lparr>status = 200, headers = hdrs,
                         body = EnvelopeJson (queryTable p allCertifications)\<rparr>))"

text \<open>
  The first statement of \<open>getTableData\<close> reads the identifier \<open>url\<close>. The function has the
  parameters \<open>request\<close>, \<open>env\<close> and \<open>headers\<close>; the module declares a constant and eight
  functions; the runtime has no global of that name. The \<open>url\<close> of \<open>handleApiRequest\<close> is
  a parameter of that function and is not passed on.
\<close>

definition getTableData_parameters :: "string list" where
  "getTableData_parameters = [''request'', ''env'', ''headers'']"

definition moduleDeclarations :: "string list" where
  "moduleDeclarations =
     [''CERTIFICATIONS_TABLE_ID'', ''handleApiRequest'', ''fetchFromNocoDB'',
      ''fetchAllCertifications'', ''getCertificationsSummary'', ''getMonthlyTrends'',
      ''getTableData'', ''getContentType'']"

definition getTableData ::
  "request \<Rightarrow> network \<Rightarrow> env \<Rightarrow> (string \<times> string) list \<Rightarrow> response promise" where
  "getTableData req net env hdrs =
     (if ''url'' \<in> set getTableData_parameters \<union> set moduleDeclarations
      then tableData (requestUrl req) net env hdrs
      else async (Inl (ReferenceError ''url is not defined'')))"

section \<open>The router\<close>

text \<open>
  The entry point of the worker hands every request whose path starts with \<open>/api/\<close> to
  \<open>handleApiRequest\<close>, with the parsed URL of the request, and returns its promise. The
  serving of static files, for the other paths, is not part of the model.
\<close>

definition apiHeaders :: "(string \<times> string) list" where
  "apiHeaders =
     [(''Content-Type'', ''application/json''),
      (''Access-Control-Allow-Origin'', ''*''),
      (''Access-Control-Allow-Methods'', ''GET, POST, OPTIONS''),
      (''Access-Control-Allow-Headers'', ''Content-Type, x-token'')]"

text \<open>
  What a \<open>return\<close> statement of the \<open>try\<close> block hands over is a response, or the promise
  that the call of a handler has just made. Such a call does not throw: a handler is an
  \<open>async\<close> function. The promise is returned without \<open>await\<close>, so it settles after the
  \<open>try\<close> block has been left, and the promise of \<open>handleApiRequest\<close> takes its outcome.
\<close>

datatype returned = Plain response | Pending "response promise"

definition dispatch ::
  "instant \<Rightarrow> dateParser \<Rightarrow> network \<Rightarrow> request \<Rightarrow> url \<Rightarrow> env \<Rightarrow> error + returned" where
  \<comment> \<open>the \<open>switch\<close> inside \<open>try\<close>, lines 69 to 80; \<open>Inl\<close> is an error thrown inside the block\<close>
  "dispatch now dateOf net req u env =
     (if pathname u = ''/api/certifications''
      then Inr (Pending (fetchAllCertifications net env apiHeaders))
      else if pathname u = ''/api/summary''
      then Inr (Pending (getCertificationsSummary net env apiHeaders))
      else if pathname u = ''/api/monthly-trends''
      then Inr (Pending (getMonthlyTrends now dateOf net env apiHeaders))
      else if pathname u = ''/api/table-data''
      then Inr (Pending (getTableData req net env apiHeaders))
      else Inr (Plain \<lparr>status = 404, headers = apiHeaders,
                       body = ErrorJson ''API endpoint not found'' None\<rparr>))"

definition handleApiRequest ::
  "instant \<Rightarrow> dateParser \<Rightarrow> network \<Rightarrow> request \<Rightarrow> url \<Rightarrow> env \<Rightarrow> response promise" where
  "handleApiRequest now dateOf net req u env =
     (if httpMethod req = ''OPTIONS''
      then Fulfilled \<lparr>status = 200, headers = apiHeaders, body = NoBody\<rparr>
      else (case dispatch now dateOf net req u env of
              Inl e \<Rightarrow>
                Fulfilled \<lparr>status = 500, headers = apiHeaders,
                           body = ErrorJson ''Internal Server Error'' (Some (message e))\<rparr>
            | Inr (Plain r) \<Rightarrow> Fulfilled r
            | Inr (Pending p) \<Rightarrow> p))"

section \<open>Observations and sample inputs\<close>

definition serviceDown :: network where
  \<comment> \<open>a data service that answers every request with status 503\<close>
  "serviceDown =
     (\<lambda>u t. Replied \<lparr>reply_status = 503, reply_statusText = ''Service Unavailable'',
                       reply_text = ''down'', reply_json = Unparsable\<rparr>)"

definition groupKey :: "string \<Rightarrow> cert \<Rightarrow> string" where
  \<comment> \<open>the key under which \<open>summaryStep\<close> counts a record in a grouping\<close>
  "groupKey name c = orElse (field c name) ''Unknown''"

definition tallyUnder :: "tally obj \<Rightarrow> string \<Rightarrow> nat" where
  \<comment> \<open>the number that a grouping holds under a key, 0 when it holds no number there\<close>
  "tallyUnder ob k = (case obj_get ob k of Own (Count n) \<Rightarrow> n | _ \<Rightarrow> 0)"

definition absentOrNull :: "cert \<Rightarrow> string \<Rightarrow> bool" where
  "absentOrNull c name = (field c name = None \<or> field c name = Some JNull)"

definition inOrder :: "string \<Rightarrow> string \<Rightarrow> cert \<Rightarrow> cert \<Rightarrow> bool" where
  \<comment> \<open>two records in the order of a direction: by their keys for \<open>asc\<close>, against them
      for any other direction\<close>
  "inOrder col dir a b =
     (if dir = ''asc'' then sortKey col a \<le> sortKey col b else sortKey col b \<le> sortKey col a)"

definition indexText :: "int \<Rightarrow> string" where
  \<comment> \<open>an integer as a client writes it in the query\<close>
  "indexText n = (if n < 0 then ''-'' @ decimal (nat (- n)) else decimal (nat n))"

fun sumCounts :: "tally list \<Rightarrow> nat option" where
  \<comment> \<open>the sum of a list of counts, \<open>None\<close> when one of them is not a number\<close>
  "sumCounts [] = Some 0"
| "sumCounts (Count n # ts) = map_option (\<lambda>s. n + s) (sumCounts ts)"
| "sumCounts (Text t # ts) = None"

definition sumOfCounts :: "tally obj \<Rightarrow> nat option" where
  \<comment> \<open>the sum of the counts of a grouping over all its keys\<close>
  "sumOfCounts ob = sumCounts (Object_values ob)"

definition ownKeys :: "'v obj \<Rightarrow> bool" where
  \<comment> \<open>the own keys of an object are distinct, and \<open>__proto__\<close> is not among them\<close>
  "ownKeys ob = (distinct (map fst ob) \<and> ''__proto__'' \<notin> set (map fst ob))"

definition reading :: "(bucket \<Rightarrow> nat) \<Rightarrow> bucket obj \<Rightarrow> string \<Rightarrow> nat" where
  \<comment> \<open>a counter of the bucket of a month, 0 when the month has no bucket\<close>
  "reading g monthlyData m = (case obj_get monthlyData m of Own b \<Rightarrow> g b | _ \<Rightarrow> 0)"

definition violationMonth :: "instant \<Rightarrow> cert \<Rightarrow> string" where
  \<comment> \<open>the issue month of a record, or the current month when it has no issue date\<close>
  "violationMonth now c =
     (case getMonthEntry (field c ''ISSUE DATE'') of Some m \<Rightarrow> m | None \<Rightarrow> isoMonth now)"

definition june2024 :: instant where
  \<comment> \<open>the month of the instant 2024-06-15\<close>
  "june2024 = \<lparr>fullYear = 2024, monthIndex = 5\<rparr>"

definition isoDates :: dateParser where
  \<comment> \<open>a reader of dates that knows two ISO dates\<close>
  "isoDates s = (if s = ''2024-06-01'' then Some (2024, 5)
                 else if s = ''2023-01-15'' then Some (2023, 0) else None)"

section \<open>Properties\<close>

subsection \<open>Objects\<close>

lemma map_of_insertProp:
  "k \<notin> fst ` set ob \<Longrightarrow> map_of (insertProp k v ob) = (map_of ob)(k \<mapsto> v)"
  by (induction ob) (auto simp: fun_eq_iff)

lemma map_of_replace:
  "map_of (map (\<lambda>(k', v'). if k' = k then (k', v) else (k', v')) ob) x =
     (if x = k then (if k \<in> fst ` set ob then Some v else None) else map_of ob x)"
  by (induction ob) (auto simp: rev_image_eqI)

lemma map_of_obj_set:
  "k \<noteq> ''__proto__'' \<Longrightarrow> map_of (obj_set ob k v) = (map_of ob)(k \<mapsto> v)"
  unfolding obj_set_def
  by (auto simp: map_of_insertProp map_of_replace fun_eq_iff simp del: insertProp.simps)

lemma obj_set_proto: "obj_set ob ''__proto__'' v = ob"
  by (simp add: obj_set_def)

lemma obj_get_obj_set:
  "k \<noteq> ''__proto__'' \<Longrightarrow>
   obj_get (obj_set ob k v) k' = (if k' = k then Own v else obj_get ob k')"
  by (simp add: obj_get_def map_of_obj_set)

lemma inheritedText_proto: "inheritedText ''__proto__'' \<noteq> None"
  by (simp add: inheritedText_def)

lemma inheritedText_Unknown: "inheritedText ''Unknown'' = None"
  by (simp add: inheritedText_def objectPrototypeMethods_def)

lemma keys_insertProp: "set (map fst (insertProp k v ob)) = insert k (set (map fst ob))"
  by (induction k v ob rule: insertProp.induct) auto

lemma distinct_insertProp:
  "k \<notin> set (map fst ob) \<Longrightarrow> distinct (map fst ob) \<Longrightarrow> distinct (map fst (insertProp k v ob))"
proof (induction k v ob rule: insertProp.induct)
  case (1 k v)
  then show ?case by simp
next
  case (2 k v k' v' rest)
  then show ?case
    using keys_insertProp[of k v rest] by (auto simp del: set_map)
qed

lemma keys_replace:
  "map fst (map (\<lambda>(k', v'). if k' = k then (k', v) else (k', v')) ob) = map fst ob"
  by (induction ob) auto

lemma keys_obj_set:
  "set (map fst (obj_set ob k v)) = (if k = ''__proto__'' then set (map fst ob) else insert k (set (map fst ob)))"
  unfolding obj_set_def
  by (auto simp: keys_insertProp keys_replace simp del: set_map) (auto simp: rev_image_eqI)

lemma ownKeys_obj_set:
  assumes "ownKeys ob"
  shows "ownKeys (obj_set ob k v)"
proof (cases "k = ''__proto__''")
  case True
  with assms show ?thesis by (simp add: obj_set_def)
next
  case False
  show ?thesis
  proof (cases "k \<in> fst ` set ob")
    case True
    with False have "obj_set ob k v = map (\<lambda>(k', v'). if k' = k then (k', v) else (k', v')) ob"
      by (simp add: obj_set_def)
    then have "map fst (obj_set ob k v) = map fst ob"
      by (simp only: keys_replace)
    with assms show ?thesis by (simp add: ownKeys_def del: set_map)
  next
    case notin: False
    with False have eq: "obj_set ob k v = insertProp k v ob"
      by (simp add: obj_set_def)
    from notin have "k \<notin> set (map fst ob)" by simp
    with assms have "distinct (map fst (insertProp k v ob))"
      by (simp add: ownKeys_def distinct_insertProp del: set_map)
    moreover from assms False have "''__proto__'' \<notin> set (map fst (insertProp k v ob))"
      unfolding keys_insertProp by (auto simp: ownKeys_def)
    ultimately show ?thesis by (simp only: ownKeys_def eq) simp
  qed
qed

lemma insertProp_append: "\<not> isArrayIndex k \<Longrightarrow> insertProp k v ob = ob @ [(k, v)]"
  by (induction k v ob rule: insertProp.induct) auto

subsection \<open>The summary\<close>

text \<open>
  Claim C1 says that in each of the three groupings of \<open>summarize\<close> the counts add up to the
  number of records. The code reads the running count of a key with \<open>o[k] || 0\<close>, and for a
  key that \<open>Object.prototype\<close> defines this is the inherited function, not a count. For the
  single record whose \<open>CREDENTIAL\<close> is \<open>constructor\<close> the grouping by credential holds a string
  under that key and no number at all, while \<open>total\<close> is 1.
\<close>

theorem summarize_inherited_key:
  "summarize [[(''CREDENTIAL'', JStr ''constructor'')]] =
     \<lparr>total = 1,
      byCredential = [(''constructor'', Text ''function Object() { [native code] }1'')],
      byCounty = [(''Unknown'', Count 1)],
      byCity = [(''Unknown'', Count 1)]\<rparr>
   \<and> sumOfCounts (byCredential (summarize [[(''CREDENTIAL'', JStr ''constructor'')]])) = None"
  by code_simp

lemma tallyUnder_countUnder:
  assumes "inheritedText k = None"
    and "obj_get ob k = Undefined \<or> (\<exists>n. obj_get ob k = Own (Count n))"
  shows "obj_get (countUnder ob k') k = Own (Count (tallyUnder ob k + 1)) \<and> k' = k
       \<or> obj_get (countUnder ob k') k = obj_get ob k \<and> k' \<noteq> k"
proof (cases "k' = k")
  case True
  with assms have "k \<noteq> ''__proto__''" using inheritedText_proto by auto
  with True assms(2) show ?thesis
    by (auto simp: countUnder_def obj_get_obj_set tallyUnder_def)
next
  case False
  then show ?thesis
    by (cases "k' = ''__proto__''") (auto simp: countUnder_def obj_get_obj_set obj_set_proto)
qed

lemma tally_foldl:
  assumes "inheritedText k = None"
  shows "obj_get ob k = Undefined \<or> (\<exists>n. obj_get ob k = Own (Count n)) \<Longrightarrow>
     (obj_get (foldl countUnder ob ks) k = Undefined
        \<or> (\<exists>n. obj_get (foldl countUnder ob ks) k = Own (Count n)))
     \<and> tallyUnder (foldl countUnder ob ks) k = tallyUnder ob k + count_list ks k"
proof (induction ks arbitrary: ob)
  case Nil
  then show ?case by simp
next
  case (Cons k' ks)
  from tallyUnder_countUnder[OF assms Cons.prems, of k']
  have step: "(obj_get (countUnder ob k') k = Undefined
                 \<or> (\<exists>n. obj_get (countUnder ob k') k = Own (Count n)))
     \<and> tallyUnder (countUnder ob k') k = tallyUnder ob k + (if k' = k then 1 else 0)"
    using Cons.prems by (auto simp: tallyUnder_def)
  from Cons.IH[OF step[THEN conjunct1]] step show ?case by auto
qed

lemma foldl_summaryStep:
  "byCredential (foldl summaryStep s rs)
     = foldl countUnder (byCredential s) (map (groupKey ''CREDENTIAL'') rs)
 \<and> byCounty (foldl summaryStep s rs)
     = foldl countUnder (byCounty s) (map (groupKey ''COUNTY'') rs)
 \<and> byCity (foldl summaryStep s rs)
     = foldl countUnder (byCity s) (map (groupKey ''CITY'') rs)
 \<and> total (foldl summaryStep s rs) = total s"
  by (induction rs arbitrary: s) (simp_all add: summaryStep_def groupKey_def Let_def)

lemma summarize_groupings:
  "byCredential (summarize rs) = foldl countUnder [] (map (groupKey ''CREDENTIAL'') rs)"
  "byCounty (summarize rs) = foldl countUnder [] (map (groupKey ''COUNTY'') rs)"
  "byCity (summarize rs) = foldl countUnder [] (map (groupKey ''CITY'') rs)"
  "total (summarize rs) = length rs"
  by (simp_all add: summarize_def foldl_summaryStep)

lemma groupKey_missing: "absentOrNull c name \<Longrightarrow> groupKey name c = ''Unknown''"
  by (auto simp: absentOrNull_def groupKey_def)

lemma tally_Unknown:
  "tallyUnder (foldl countUnder [] ks) ''Unknown'' = count_list ks ''Unknown''"
  using tally_foldl[OF inheritedText_Unknown, of "[]" ks]
  by (simp add: obj_get_def inheritedText_Unknown tallyUnder_def)

lemma tally_summarize:
  "tallyUnder (byCredential (summarize rs)) ''Unknown''
     = count_list (map (groupKey ''CREDENTIAL'') rs) ''Unknown''"
  "tallyUnder (byCounty (summarize rs)) ''Unknown''
     = count_list (map (groupKey ''COUNTY'') rs) ''Unknown''"
  "tallyUnder (byCity (summarize rs)) ''Unknown''
     = count_list (map (groupKey ''CITY'') rs) ''Unknown''"
  by (simp_all add: summarize_groupings tally_Unknown)

text \<open>
  Claim C8: a record in which \<open>CREDENTIAL\<close>, \<open>COUNTY\<close> or \<open>CITY\<close> is absent or \<open>null\<close> is
  counted under the key \<open>Unknown\<close> of the corresponding grouping. Wherever the record
  stands in the sequence, the number under \<open>Unknown\<close> is one more than it is without the
  record.
\<close>

theorem missing_field_counted_as_Unknown:
  "(absentOrNull c ''CREDENTIAL'' \<longrightarrow>
      tallyUnder (byCredential (summarize (pre @ c # post))) ''Unknown''
      = tallyUnder (byCredential (summarize (pre @ post))) ''Unknown'' + 1)
 \<and> (absentOrNull c ''COUNTY'' \<longrightarrow>
      tallyUnder (byCounty (summarize (pre @ c # post))) ''Unknown''
      = tallyUnder (byCounty (summarize (pre @ post))) ''Unknown'' + 1)
 \<and> (absentOrNull c ''CITY'' \<longrightarrow>
      tallyUnder (byCity (summarize (pre @ c # post))) ''Unknown''
      = tallyUnder (byCity (summarize (pre @ post))) ''Unknown'' + 1)"
  by (simp add: tally_summarize groupKey_missing)

theorem missing_field_counted_as_Unknown_witness:
  "absentOrNull [(''CITY'', JNull)] ''CREDENTIAL''
 \<and> absentOrNull [(''CITY'', JNull)] ''COUNTY''
 \<and> absentOrNull [(''CITY'', JNull)] ''CITY''
 \<and> tallyUnder (byCredential (summarize ([[(''CREDENTIAL'', JStr ''CRS'')]] @ [(''CITY'', JNull)] # []))) ''Unknown''
     = tallyUnder (byCredential (summarize ([[(''CREDENTIAL'', JStr ''CRS'')]] @ []))) ''Unknown'' + 1
 \<and> tallyUnder (byCounty (summarize ([[(''CREDENTIAL'', JStr ''CRS'')]] @ [(''CITY'', JNull)] # []))) ''Unknown''
     = tallyUnder (byCounty (summarize ([[(''CREDENTIAL'', JStr ''CRS'')]] @ []))) ''Unknown'' + 1
 \<and> tallyUnder (byCity (summarize ([[(''CREDENTIAL'', JStr ''CRS'')]] @ [(''CITY'', JNull)] # []))) ''Unknown''
     = tallyUnder (byCity (summarize ([[(''CREDENTIAL'', JStr ''CRS'')]] @ []))) ''Unknown'' + 1"
proof -
  have a: "absentOrNull [(''CITY'', JNull)] ''CREDENTIAL''"
    and b: "absentOrNull [(''CITY'', JNull)] ''COUNTY''"
    and c: "absentOrNull [(''CITY'', JNull)] ''CITY''"
    by (simp_all add: absentOrNull_def field_def)
  from missing_field_counted_as_Unknown
         [of "[(''CITY'', JNull)]" "[[(''CREDENTIAL'', JStr ''CRS'')]]" "[]"] a b c
  show ?thesis by blast
qed

text \<open>
  The counts do add up for the record sequences in which no group key is a name that
  \<open>Object.prototype\<close> defines.
\<close>

lemma sumCounts_insertProp:
  "sumCounts (map snd (insertProp k (Count n) ob)) = map_option (\<lambda>s. n + s) (sumCounts (map snd ob))"
proof (induction ob)
  case Nil
  then show ?case by simp
next
  case (Cons e ob)
  obtain k' v' where e: "e = (k', v')" by (cases e)
  show ?case
  proof (cases v')
    case (Count m)
    with Cons e show ?thesis
      by (cases "sumCounts (map snd ob)") (auto simp: option.map_comp comp_def)
  next
    case (Text t)
    with Cons e show ?thesis by auto
  qed
qed

lemma sumCounts_replace:
  assumes "distinct (map fst ob)" and "map_of ob k = Some (Count n)"
  shows "sumCounts (map snd (map (\<lambda>(k', v'). if k' = k then (k', Count (Suc n)) else (k', v')) ob))
         = map_option Suc (sumCounts (map snd ob))"
  using assms
proof (induction ob)
  case Nil
  then show ?case by simp
next
  case (Cons e ob)
  obtain k' v' where e: "e = (k', v')" by (cases e)
  show ?case
  proof (cases "k' = k")
    case True
    with Cons.prems e have v: "v' = Count n" and notin: "k \<notin> fst ` set ob" by auto
    from notin have same: "map (\<lambda>(k', v'). if k' = k then (k', Count (Suc n)) else (k', v')) ob = ob"
      by (induction ob) auto
    from True e v same show ?thesis
      by (cases "sumCounts (map snd ob)") auto
  next
    case False
    with Cons e have ih: "sumCounts (map snd (map (\<lambda>(k', v'). if k' = k then (k', Count (Suc n)) else (k', v')) ob))
         = map_option Suc (sumCounts (map snd ob))" by auto
    from False e ih show ?thesis
      by (cases v'; cases "sumCounts (map snd ob)") auto
  qed
qed


lemma sumCounts_no_Text: "sumCounts ts = Some n \<Longrightarrow> Text t \<notin> set ts"
  by (induction ts arbitrary: n rule: sumCounts.induct) auto

lemma countUnder_sum:
  assumes "inheritedText k = None" and "distinct (map fst ob)" and "sumOfCounts ob = Some n"
  shows "sumOfCounts (countUnder ob k) = Some (n + 1) \<and> distinct (map fst (countUnder ob k))"
proof -
  from assms(1) have np: "k \<noteq> ''__proto__''"
    using inheritedText_proto by auto
  show ?thesis
  proof (cases "map_of ob k")
    case None
    then have notin: "k \<notin> set (map fst ob)"
      by (simp add: map_of_eq_None_iff)
    from None assms(1) have "obj_get ob k = Undefined"
      by (simp add: obj_get_def)
    with notin np have "countUnder ob k = insertProp k (Count 1) ob"
      by (simp add: countUnder_def obj_set_def)
    with assms(2,3) notin show ?thesis
      by (simp add: sumOfCounts_def Object_values_def sumCounts_insertProp distinct_insertProp)
  next
    case (Some v)
    then have mem: "(k, v) \<in> set ob" by (rule map_of_SomeD)
    then have "v \<in> set (map snd ob)" by force
    with assms(3) obtain m where v: "v = Count m"
      using sumCounts_no_Text[of "map snd ob" n] by (cases v) (auto simp: sumOfCounts_def Object_values_def)
    from mem have isin: "k \<in> fst ` set ob" by force
    from Some v have "obj_get ob k = Own (Count m)"
      by (simp add: obj_get_def)
    with isin np have eq: "countUnder ob k
        = map (\<lambda>(k', v'). if k' = k then (k', Count (Suc m)) else (k', v')) ob"
      by (simp add: countUnder_def obj_set_def)
    from Some v have at: "map_of ob k = Some (Count m)" by simp
    have "sumOfCounts (countUnder ob k) = map_option Suc (sumCounts (map snd ob))"
      unfolding eq sumOfCounts_def Object_values_def
      by (rule sumCounts_replace[OF assms(2) at])
    moreover have "map fst (countUnder ob k) = map fst ob"
      unfolding eq by (rule keys_replace)
    ultimately show ?thesis
      using assms(2,3) by (simp add: sumOfCounts_def Object_values_def)
  qed
qed

lemma foldl_countUnder_sum:
  assumes "\<forall>k \<in> set ks. inheritedText k = None"
  shows "distinct (map fst ob) \<Longrightarrow> sumOfCounts ob = Some n \<Longrightarrow>
         sumOfCounts (foldl countUnder ob ks) = Some (n + length ks)"
  using assms
proof (induction ks arbitrary: ob n)
  case Nil
  then show ?case by simp
next
  case (Cons k ks)
  from Cons.prems have "inheritedText k = None" by simp
  from countUnder_sum[OF this Cons.prems(1,2)] Cons.IH[of "countUnder ob k" "n + 1"] Cons.prems(3)
  show ?case by simp
qed

lemma summarize_counts_add_up:
  assumes "\<forall>c \<in> set rs. inheritedText (groupKey ''CREDENTIAL'' c) = None
                       \<and> inheritedText (groupKey ''COUNTY'' c) = None
                       \<and> inheritedText (groupKey ''CITY'' c) = None"
  shows "total (summarize rs) = length rs
       \<and> sumOfCounts (byCredential (summarize rs)) = Some (length rs)
       \<and> sumOfCounts (byCounty (summarize rs)) = Some (length rs)
       \<and> sumOfCounts (byCity (summarize rs)) = Some (length rs)"
proof -
  have e: "distinct (map fst ([] :: tally obj))" "sumOfCounts [] = Some 0"
    by (simp_all add: sumOfCounts_def Object_values_def)
  from assms have
    "\<forall>k \<in> set (map (groupKey ''CREDENTIAL'') rs). inheritedText k = None"
    "\<forall>k \<in> set (map (groupKey ''COUNTY'') rs). inheritedText k = None"
    "\<forall>k \<in> set (map (groupKey ''CITY'') rs). inheritedText k = None"
    by simp_all
  from this[THEN foldl_countUnder_sum, OF e] show ?thesis
    by (simp add: summarize_groupings)
qed


subsection \<open>The router\<close>

text \<open>
  Claim C2 says that a GET request to \<open>/api/table-data\<close> is answered with the paging
  envelope. The handler reads the identifier \<open>url\<close>, which is not in its scope: whatever
  the query and the data service, the promise of the router is rejected with a reference
  error and no envelope is produced.
\<close>

theorem table_data_rejected:
  "handleApiRequest now dateOf net
     \<lparr>httpMethod = ''GET'',
      requestUrl = \<lparr>pathname = ''/api/table-data'',
                    searchParams = [(''draw'', ''1''), (''start'', ''0''), (''length'', ''10'')]\<rparr>\<rparr>
     \<lparr>pathname = ''/api/table-data'',
      searchParams = [(''draw'', ''1''), (''start'', ''0''), (''length'', ''10'')]\<rparr>
     env
   = Rejected (ReferenceError ''url is not defined'')"
  by (simp add: handleApiRequest_def dispatch_def getTableData_def
        getTableData_parameters_def moduleDeclarations_def)

text \<open>
  Claim C3 says that an error raised while an API request is handled becomes a response
  with status 500 and an error envelope. The handlers are called inside \<open>try\<close> and their
  promises returned without \<open>await\<close>, so a rejection passes the \<open>catch\<close> clause by: when the
  data service answers 503, the promise of the router is rejected with the error of
  \<open>fetchFromNocoDB\<close>.
\<close>

theorem upstream_error_escapes:
  "handleApiRequest now dateOf serviceDown
     \<lparr>httpMethod = ''GET'', requestUrl = \<lparr>pathname = ''/api/summary'', searchParams = []\<rparr>\<rparr>
     \<lparr>pathname = ''/api/summary'', searchParams = []\<rparr>
     env
   = Rejected (Error ''Failed to fetch from NocoDB: 503 - Service Unavailable - down'')"
  by code_simp

text \<open>
  In general: the handler of the table data is rejected whatever it is given, the \<open>try\<close>
  block never throws, and a rejection of the fetch is the outcome of the router on each
  of the three other data paths.
\<close>

lemma getTableData_rejected:
  "getTableData req net env hdrs = Rejected (ReferenceError ''url is not defined'')"
  by (simp add: getTableData_def getTableData_parameters_def moduleDeclarations_def)

lemma dispatch_returns: "\<exists>r. dispatch now dateOf net req u env = Inr r"
  by (simp add: dispatch_def)

lemma rejected_snapshot:
  assumes "fetchSnapshot net env = Rejected e"
  shows "fetchAllCertifications net env hdrs = Rejected e"
    and "getCertificationsSummary net env hdrs = Rejected e"
    and "getMonthlyTrends now dateOf net env hdrs = Rejected e"
    and "tableData u net env hdrs = Rejected e"
  using assms
  by (simp_all add: fetchAllCertifications_def getCertificationsSummary_def
        getMonthlyTrends_def tableData_def Let_def)

lemma fetch_failure_rejects:
  "net (NOCODB_BASE_URL env @ CERTIFICATIONS_TABLE_ID @ ''/records?limit=10000'')
       (NOCODB_API_TOKEN env) = NetworkFailure m
   \<Longrightarrow> fetchSnapshot net env = Rejected (TypeError m)"
  by (simp add: fetchSnapshot_def fetchFromNocoDB_def Let_def)

lemma error_escapes_router:
  assumes "httpMethod req \<noteq> ''OPTIONS''"
    and "pathname u = ''/api/certifications'' \<or> pathname u = ''/api/summary''
         \<or> pathname u = ''/api/monthly-trends''"
    and "fetchSnapshot net env = Rejected e"
  shows "handleApiRequest now dateOf net req u env = Rejected e"
  using assms(1,2) rejected_snapshot[OF assms(3)]
  by (auto simp: handleApiRequest_def dispatch_def)

subsection \<open>The table query\<close>

lemma length_insertBy: "length (insertBy cmp x ys) = Suc (length ys)"
  by (induction ys) auto

lemma length_Array_sort: "length (Array_sort cmp xs) = length xs"
  by (induction xs) (auto simp: Array_sort_def length_insertBy)

lemma length_applySort: "length (applySort i d xs) = length xs"
  by (auto simp: applySort_def length_Array_sort split: option.splits)

text \<open>
  With a value for \<open>url\<close>, the rest of the handler answers with the envelope: the draw
  token as sent, the size of the snapshot and the size after the filter.
\<close>

lemma tableData_envelope:
  assumes "fetchSnapshot net env = Fulfilled allCertifications"
  shows "\<exists>e. tableData u net env hdrs = Fulfilled \<lparr>status = 200, headers = hdrs, body = EnvelopeJson e\<rparr>
           \<and> draw e = getParam (searchParams u) ''draw''
           \<and> recordsTotal e = length allCertifications
           \<and> recordsFiltered e
               = length (applySearch (orString (getParam (searchParams u) ''search[value]'') [])
                           allCertifications)"
  using assms
  by (simp add: tableData_def Let_def queryTable_def readTableParams_def length_applySort)


lemma length_slice:
  assumes "0 \<le> s" "0 \<le> l"
  shows "int (length (slice xs (Some s) (Some (s + l)))) = max 0 (min l (int (length xs) - s))"
  using assms by (auto simp: slice_def relativeIndex_def Let_def min_def max_def)

text \<open>
  Claim C6: for a start and a length that are not negative, the page that \<open>queryTable\<close>
  returns has at most \<open>length\<close> records, and exactly the smaller of \<open>length\<close> and
  \<open>recordsFiltered - start\<close>, or none when that is negative.
\<close>

theorem page_length:
  assumes "p_start p = Some s" and "p_length p = Some l" and "0 \<le> s" and "0 \<le> l"
  shows "int (length (data (queryTable p allCertifications))) \<le> l
       \<and> int (length (data (queryTable p allCertifications)))
           = max 0 (min l (int (recordsFiltered (queryTable p allCertifications)) - s))"
proof -
  let ?rows = "applySort (p_orderColumnIndex p) (p_orderDirection p)
                 (applySearch (p_searchValue p) allCertifications)"
  have d: "data (queryTable p allCertifications) = slice ?rows (Some s) (Some (s + l))"
    and r: "recordsFiltered (queryTable p allCertifications) = length ?rows"
    using assms(1,2) by (simp_all add: queryTable_def Let_def)
  have "int (length (slice ?rows (Some s) (Some (s + l)))) = max 0 (min l (int (length ?rows) - s))"
    by (rule length_slice[OF assms(3,4)])
  with d r assms(4) show ?thesis by auto
qed

theorem page_length_witness:
  "p_start \<lparr>p_draw = Some ''1'', p_start = Some 1, p_length = Some 2, p_searchValue = [],
            p_orderColumnIndex = None, p_orderDirection = None\<rparr> = Some 1
 \<and> p_length \<lparr>p_draw = Some ''1'', p_start = Some 1, p_length = Some 2, p_searchValue = [],
             p_orderColumnIndex = None, p_orderDirection = None\<rparr> = Some 2
 \<and> (0::int) \<le> 1 \<and> (0::int) \<le> 2
 \<and> int (length (data (queryTable
        \<lparr>p_draw = Some ''1'', p_start = Some 1, p_length = Some 2, p_searchValue = [],
         p_orderColumnIndex = None, p_orderDirection = None\<rparr>
        [[(''NAME'', JStr ''A'')], [(''NAME'', JStr ''B'')]]))) \<le> 2
 \<and> int (length (data (queryTable
        \<lparr>p_draw = Some ''1'', p_start = Some 1, p_length = Some 2, p_searchValue = [],
         p_orderColumnIndex = None, p_orderDirection = None\<rparr>
        [[(''NAME'', JStr ''A'')], [(''NAME'', JStr ''B'')]])))
     = max 0 (min 2 (int (recordsFiltered (queryTable
        \<lparr>p_draw = Some ''1'', p_start = Some 1, p_length = Some 2, p_searchValue = [],
         p_orderColumnIndex = None, p_orderDirection = None\<rparr>
        [[(''NAME'', JStr ''A'')], [(''NAME'', JStr ''B'')]])) - 1))"
proof -
  let ?p = "\<lparr>p_draw = Some ''1'', p_start = Some 1, p_length = Some 2, p_searchValue = [],
             p_orderColumnIndex = None, p_orderDirection = None\<rparr>"
  have h1: "p_start ?p = Some 1" and h2: "p_length ?p = Some 2" by simp_all
  have h3: "(0::int) \<le> 1" and h4: "(0::int) \<le> 2" by simp_all
  from page_length[OF h1 h2 h3 h4, of "[[(''NAME'', JStr ''A'')], [(''NAME'', JStr ''B'')]]"]
    h1 h2 h3 h4
  show ?thesis by blast
qed

lemma compareBy_le: "compareBy col dir a b \<le> 0 \<longleftrightarrow> inOrder col dir a b"
  by (auto simp: compareBy_def inOrder_def Let_def)

lemma compareBy_gt: "0 < compareBy col dir x y \<Longrightarrow> sortKey col x \<noteq> sortKey col y"
  by (auto simp: compareBy_def Let_def split: if_splits)

lemma inOrder_total: "\<not> inOrder col dir a b \<Longrightarrow> inOrder col dir b a"
  by (auto simp: inOrder_def split: if_splits)

lemma inOrder_trans: "inOrder col dir a b \<Longrightarrow> inOrder col dir b c \<Longrightarrow> inOrder col dir a c"
  by (auto simp: inOrder_def split: if_splits)

lemma set_insertBy: "set (insertBy cmp x ys) = insert x (set ys)"
  by (induction ys) auto

lemma mset_insertBy: "mset (insertBy cmp x ys) = add_mset x (mset ys)"
  by (induction ys) auto

lemma sorted_insertBy:
  "sorted_wrt (inOrder col dir) ys \<Longrightarrow>
   sorted_wrt (inOrder col dir) (insertBy (compareBy col dir) x ys)"
proof (induction ys)
  case Nil
  then show ?case by simp
next
  case (Cons y ys)
  show ?case
  proof (cases "compareBy col dir x y \<le> 0")
    case True
    then have xy: "inOrder col dir x y" by (simp add: compareBy_le)
    have "\<forall>z \<in> set ys. inOrder col dir x z"
      using Cons.prems xy by (auto intro: inOrder_trans)
    with True xy Cons.prems show ?thesis by simp
  next
    case False
    then have yx: "inOrder col dir y x" by (simp add: compareBy_le inOrder_total)
    with False Cons show ?thesis by (auto simp: set_insertBy)
  qed
qed

lemma filter_insertBy:
  "filter (\<lambda>r. sortKey col r = k) (insertBy (compareBy col dir) x ys)
   = filter (\<lambda>r. sortKey col r = k) (x # ys)"
proof (induction ys)
  case Nil
  then show ?case by simp
next
  case (Cons y ys)
  show ?case
  proof (cases "compareBy col dir x y \<le> 0")
    case True
    then show ?thesis by simp
  next
    case False
    then have "sortKey col x \<noteq> sortKey col y"
      using compareBy_gt[of col dir x y] by simp
    with False Cons.IH show ?thesis by auto
  qed
qed

lemma Array_sort_compareBy:
  "mset (Array_sort (compareBy col dir) xs) = mset xs"
  "sorted_wrt (inOrder col dir) (Array_sort (compareBy col dir) xs)"
  "filter (\<lambda>r. sortKey col r = k) (Array_sort (compareBy col dir) xs)
   = filter (\<lambda>r. sortKey col r = k) xs"
  by (induction xs) (simp_all add: Array_sort_def mset_insertBy sorted_insertBy filter_insertBy)

text \<open>
  Claim C7: when a sort column and a direction are supplied, the records are ordered by
  the value of the column as a case-folded string, a missing value counting as the empty
  string, and the sort is stable. For a column that \<open>columns\<close> holds and a direction that
  is not empty, the sorted sequence has the same records, is in the order of the keys
  (ascending for \<open>asc\<close>, descending otherwise), and keeps the records of every key in
  their order; the key of a record is empty when the value is absent or \<open>null\<close>, and the
  lower-case form of the value when it is a string.
\<close>

theorem sort_by_column_stable:
  assumes "columnAt i = Some col" and "dir \<noteq> []"
  shows "mset (applySort (Some i) (Some dir) xs) = mset xs
       \<and> sorted_wrt (inOrder col dir) (applySort (Some i) (Some dir) xs)
       \<and> filter (\<lambda>r. sortKey col r = k) (applySort (Some i) (Some dir) xs)
           = filter (\<lambda>r. sortKey col r = k) xs
       \<and> (absentOrNull r col \<longrightarrow> sortKey col r = [])
       \<and> (field r col = Some (JStr s) \<longrightarrow> sortKey col r = toLowerCase s)"
proof -
  have run: "applySort (Some i) (Some dir) xs = Array_sort (compareBy col dir) xs"
    using assms by (simp add: applySort_def)
  have missing: "absentOrNull r col \<longrightarrow> sortKey col r = []"
    by (auto simp: absentOrNull_def sortKey_def toLowerCase_def)
  have folded: "field r col = Some (JStr s) \<longrightarrow> sortKey col r = toLowerCase s"
    by (auto simp: sortKey_def toLowerCase_def)
  from missing folded show ?thesis
    unfolding run by (simp add: Array_sort_compareBy)
qed

lemma applySort_example: "applySort (Some ''2'') (Some ''asc'')
     [[(''NAME'', JStr ''A''), (''STATUS'', JStr ''Active'')],
      [(''NAME'', JStr ''b''), (''STATUS'', JStr ''Active'')]]
   = [[(''NAME'', JStr ''A''), (''STATUS'', JStr ''Active'')],
      [(''NAME'', JStr ''b''), (''STATUS'', JStr ''Active'')]]"
  by code_simp

lemma columnAt_NAME: "columnAt ''2'' = Some ''NAME''"
  by (simp add: columnAt_def isArrayIndex_def isDigit_def decimalValue_def columns_def)


theorem sort_by_column_stable_witness:
  "columnAt ''2'' = Some ''NAME'' \<and> ''asc'' \<noteq> []
   \<and> mset (applySort (Some ''2'') (Some ''asc'')
        [[(''NAME'', JStr ''A''), (''STATUS'', JStr ''Active'')],
         [(''NAME'', JStr ''b''), (''STATUS'', JStr ''Active'')]])
      = mset [[(''NAME'', JStr ''A''), (''STATUS'', JStr ''Active'')],
         [(''NAME'', JStr ''b''), (''STATUS'', JStr ''Active'')]]
   \<and> applySort (Some ''2'') (Some ''asc'')
        [[(''NAME'', JStr ''A''), (''STATUS'', JStr ''Active'')],
         [(''NAME'', JStr ''b''), (''STATUS'', JStr ''Active'')]]
      = [[(''NAME'', JStr ''A''), (''STATUS'', JStr ''Active'')],
         [(''NAME'', JStr ''b''), (''STATUS'', JStr ''Active'')]]"
proof -
  have h1: "columnAt ''2'' = Some ''NAME''" by (rule columnAt_NAME)
  have h2: "''asc'' \<noteq> []" by simp
  from sort_by_column_stable[OF h1 h2] h1 h2 applySort_example show ?thesis by simp
qed


lemma of_char_digitChar: "d < 10 \<Longrightarrow> (of_char (digitChar d) :: nat) = 48 + d"
  by (simp add: digitChar_def)

lemma isDigit_digitChar: "d < 10 \<Longrightarrow> isDigit (digitChar d)"
  by (simp add: isDigit_def of_char_digitChar)

lemma decimal_digits: "decimal n \<noteq> [] \<and> list_all isDigit (decimal n)"
proof (induction n rule: decimal.induct)
  case (1 n)
  show ?case
  proof (cases "n < 10")
    case True
    then show ?thesis by (subst (1 2) decimal.simps) (simp add: isDigit_digitChar)
  next
    case False
    with 1 show ?thesis by (subst (1 2) decimal.simps) (simp add: isDigit_digitChar)
  qed
qed

lemma decimalValue_snoc: "decimalValue (ds @ [c]) = 10 * decimalValue ds + ((of_char c :: nat) - 48)"
  by (simp add: decimalValue_def)

lemma decimalValue_decimal: "decimalValue (decimal n) = n"
proof (induction n rule: decimal.induct)
  case (1 n)
  show ?case
  proof (cases "n < 10")
    case True
    then show ?thesis
      by (subst decimal.simps) (simp add: decimalValue_def of_char_digitChar)
  next
    case False
    with 1 show ?thesis
      by (subst decimal.simps) (simp add: decimalValue_snoc of_char_digitChar)
  qed
qed

lemma hd_decimal: "isDigit (hd (decimal n))"
  using decimal_digits[of n] by (cases "decimal n") auto

lemma names_start:
  "\<forall>m \<in> set ([''length'', ''__proto__'', ''constructor''] @ arrayPrototypeMethods @ objectPrototypeMethods).
      \<not> isDigit (hd m) \<and> hd m \<noteq> CHR ''-''"
  by (simp add: arrayPrototypeMethods_def objectPrototypeMethods_def isDigit_def)

lemma columnAt_no_name:
  assumes "isDigit (hd k) \<or> hd k = CHR ''-''" and "\<not> isArrayIndex k"
  shows "columnAt k = None"
proof -
  from assms(1) names_start
  have "k \<notin> set ([''length'', ''__proto__'', ''constructor''] @ arrayPrototypeMethods @ objectPrototypeMethods)"
    by blast
  with assms(2) show ?thesis by (simp add: columnAt_def)
qed

lemma length_columns: "length columns = 11"
  by (simp add: columns_def)

lemma columnAt_out_of_range:
  assumes "n < 0 \<or> 11 \<le> n"
  shows "columnAt (indexText n) = None"
proof (cases "n < 0")
  case True
  then have "hd (indexText n) = CHR ''-''" and "\<not> isArrayIndex (indexText n)"
    by (simp_all add: indexText_def isArrayIndex_def isDigit_def)
  then show ?thesis by (simp add: columnAt_no_name)
next
  case False
  with assms have n: "11 \<le> nat n" and t: "indexText n = decimal (nat n)"
    by (simp_all add: indexText_def)
  show ?thesis
  proof (cases "isArrayIndex (indexText n)")
    case True
    with n show ?thesis by (simp add: columnAt_def t decimalValue_decimal length_columns)
  next
    case False
    then show ?thesis by (simp add: columnAt_no_name t hd_decimal)
  qed
qed

lemma applySort_None: "applySort None dir xs = xs"
  by (simp add: applySort_def)

text \<open>
  Claim C9: when the sort column index is outside the range of the eleven column names,
  the sort step is skipped and there is no error. For an index below 0 or from 11 on,
  written as in the query, \<open>applySort\<close> returns the sequence as it is, and \<open>queryTable\<close>
  returns the envelope that it returns without an index.
\<close>

theorem sort_skipped_out_of_range:
  assumes "n < 0 \<or> 11 \<le> n"
  shows "length columns = 11
       \<and> applySort (Some (indexText n)) dir xs = xs
       \<and> queryTable (p\<lparr>p_orderColumnIndex := Some (indexText n)\<rparr>) rs
           = queryTable (p\<lparr>p_orderColumnIndex := None\<rparr>) rs"
proof -
  have skip: "applySort (Some (indexText n)) d ys = ys" for d ys
    using columnAt_out_of_range[OF assms] by (simp add: applySort_def split: option.splits)
  show ?thesis
    by (simp add: length_columns skip applySort_None queryTable_def)
qed

lemma indexText_examples: "indexText 11 = ''11'' \<and> indexText (- 1) = ''-1''"
  by code_simp


theorem sort_skipped_out_of_range_witness:
  "((11::int) < 0 \<or> (11::int) \<le> 11)
   \<and> indexText 11 = ''11''
   \<and> applySort (Some ''11'') (Some ''asc'')
        [[(''NAME'', JStr ''b'')], [(''NAME'', JStr ''A'')]]
      = [[(''NAME'', JStr ''b'')], [(''NAME'', JStr ''A'')]]"
proof -
  have h: "(11::int) < 0 \<or> (11::int) \<le> 11" by simp
  from sort_skipped_out_of_range[OF h, of "Some ''asc''" "[[(''NAME'', JStr ''b'')], [(''NAME'', JStr ''A'')]]"]
  show ?thesis using indexText_examples by simp
qed

lemma toLowerCase_null: "toLowerCase ''null'' = ''null''"
  by code_simp

lemma matchesSearch_iff:
  "matchesSearch s c \<longleftrightarrow>
     (\<exists>v \<in> snd ` set c. js_includes (toLowerCase (String_jval v)) (toLowerCase s))"
  by (auto simp: matchesSearch_def Object_values_def list_ex_iff)

text \<open>
  Claim C10, as amended: in the filter of \<open>queryTable\<close> a field whose value is \<open>null\<close> takes
  part in the match as the text \<open>null\<close>, so that a record with such a field is kept when
  the search value, in lower case, occurs in \<open>null\<close>; a field that is absent takes no
  part: a record without \<open>null\<close> fields is kept only when the text of one of its fields
  contains the search value.
\<close>

theorem null_matches_as_text:
  assumes "s \<noteq> []"
  shows "((name, JNull) \<in> set c \<and> js_includes ''null'' (toLowerCase s) \<and> c \<in> set rs
            \<longrightarrow> c \<in> set (applySearch s rs))
       \<and> (JNull \<notin> snd ` set c \<and> c \<in> set (applySearch s rs)
            \<longrightarrow> (\<exists>name t. (name, JStr t) \<in> set c \<and> js_includes (toLowerCase t) (toLowerCase s)))"
proof -
  have a: "(name, JNull) \<in> set c \<Longrightarrow> js_includes ''null'' (toLowerCase s) \<Longrightarrow> matchesSearch s c"
    unfolding matchesSearch_iff by (force simp: toLowerCase_null)
  have b: "\<exists>name t. (name, JStr t) \<in> set c \<and> js_includes (toLowerCase t) (toLowerCase s)"
    if "JNull \<notin> snd ` set c" and "matchesSearch s c"
  proof -
    from that(2) obtain k v where kv: "(k, v) \<in> set c"
      and inc: "js_includes (toLowerCase (String_jval v)) (toLowerCase s)"
      unfolding matchesSearch_iff by auto
    from kv that(1) have "v \<noteq> JNull" by force
    then obtain t where "v = JStr t" by (cases v) auto
    with kv inc show ?thesis by auto
  qed
  from a b assms show ?thesis by (auto simp: applySearch_def)
qed

text \<open>
  The claim as stated has an absent field match as the text \<open>undefined\<close>. The record that
  has only a \<open>NAME\<close> is dropped by the search value \<open>undefined\<close>.
\<close>

theorem undefined_not_matched:
  "field [(''NAME'', JStr ''A'')] ''CITY'' = None
   \<and> \<not> matchesSearch ''undefined'' [(''NAME'', JStr ''A'')]
   \<and> applySearch ''undefined'' [[(''NAME'', JStr ''A'')]] = []"
  by code_simp


theorem null_matches_as_text_witness:
  "''null'' \<noteq> []
   \<and> (''CITY'', JNull) \<in> set [(''NAME'', JStr ''A''), (''CITY'', JNull)]
   \<and> js_includes ''null'' (toLowerCase ''null'')
   \<and> [(''NAME'', JStr ''A''), (''CITY'', JNull)]
        \<in> set (applySearch ''null'' [[(''NAME'', JStr ''A''), (''CITY'', JNull)], [(''NAME'', JStr ''B'')]])
   \<and> \<not> js_includes (toLowerCase ''A'') (toLowerCase ''null'')
   \<and> [(''NAME'', JStr ''B'')]
        \<notin> set (applySearch ''null'' [[(''NAME'', JStr ''A''), (''CITY'', JNull)], [(''NAME'', JStr ''B'')]])"
proof -
  let ?c = "[(''NAME'', JStr ''A''), (''CITY'', JNull)]"
  let ?b = "[(''NAME'', JStr ''B'')]"
  let ?rs = "[?c, ?b]"
  have h: "''null'' \<noteq> []" by simp
  have e1: "js_includes ''null'' (toLowerCase ''null'')" by code_simp
  have e2: "\<not> js_includes (toLowerCase ''A'') (toLowerCase ''null'')" by code_simp
  have e3: "\<not> js_includes (toLowerCase ''B'') (toLowerCase ''null'')" by code_simp
  have m: "(''CITY'', JNull) \<in> set ?c" by simp
  have i: "?c \<in> set ?rs" by simp
  have nn: "JNull \<notin> snd ` set ?b" by simp
  have only: "(name, JStr t) \<in> set ?b \<Longrightarrow> t = ''B''" for name t by simp
  from null_matches_as_text[OF h, of "''CITY''" ?c ?rs] m e1 i
  have kept: "?c \<in> set (applySearch ''null'' ?rs)" by blast
  from null_matches_as_text[OF h, of "''CITY''" ?b ?rs] nn only e3
  have dropped: "?b \<notin> set (applySearch ''null'' ?rs)" by blast
  from h m e1 kept e2 dropped show ?thesis by blast
qed


subsection \<open>The monthly trends\<close>

lemma Undefined_not_proto: "obj_get ob m = Undefined \<Longrightarrow> m \<noteq> ''__proto__''"
  by (auto simp: obj_get_def inheritedText_def split: option.splits)

lemma ordinary_not_proto: "inheritedText m = None \<Longrightarrow> m \<noteq> ''__proto__''"
  using inheritedText_proto by auto

lemma ordinary_get: "inheritedText m = None \<Longrightarrow> obj_get ob m = Undefined \<or> (\<exists>b. obj_get ob m = Own b)"
  by (auto simp: obj_get_def split: option.splits)

lemma obj_get_ensureBucket:
  "obj_get (ensureBucket md m) k =
     (if k = m \<and> obj_get md m = Undefined then Own emptyBucket else obj_get md k)"
  by (cases "obj_get md m") (auto simp: ensureBucket_def obj_get_obj_set Undefined_not_proto)

lemma reading_ensureBucket:
  "g emptyBucket = 0 \<Longrightarrow> reading g (ensureBucket md m) k = reading g md k"
  by (simp add: reading_def obj_get_ensureBucket)

lemma reading_bump_same:
  assumes "inheritedText m = None" and "g emptyBucket = 0" and "\<And>b. g (f b) = g b + 1"
  shows "reading g (inBucket (ensureBucket md m) m f) k = reading g md k + (if k = m then 1 else 0)"
proof -
  from assms(1) have np: "m \<noteq> ''__proto__''" by (rule ordinary_not_proto)
  from ordinary_get[OF assms(1), of md] show ?thesis
    using np assms(2,3)
    by (auto simp: reading_def inBucket_def obj_get_ensureBucket obj_get_obj_set)
qed

lemma reading_bump_other:
  assumes "g emptyBucket = 0" and "\<And>b. g (f b) = g b"
  shows "reading g (inBucket (ensureBucket md m) m f) k = reading g md k"
proof (cases "obj_get (ensureBucket md m) m")
  case (Own b)
  show ?thesis
  proof (cases "m = ''__proto__''")
    case True
    with Own assms show ?thesis
      by (simp add: inBucket_def obj_set_proto reading_ensureBucket)
  next
    case False
    with Own assms show ?thesis
      by (auto simp: reading_def inBucket_def obj_get_obj_set obj_get_ensureBucket split: if_splits)
  qed
next
  case (Inherited t)
  with assms show ?thesis by (simp add: inBucket_def reading_ensureBucket)
next
  case Undefined
  with assms show ?thesis by (simp add: inBucket_def reading_ensureBucket)
qed

lemma newCertification_returns:
  assumes "\<And>m. issueMonth = Some m \<Longrightarrow> inheritedText m = None"
  shows "\<exists>md'. newCertification md issueMonth credential = Inr md'"
proof (cases issueMonth)
  case None
  then show ?thesis by (simp add: newCertification_def)
next
  case (Some m)
  with assms have "inheritedText m = None" by simp
  from ordinary_get[OF this, of md] Some show ?thesis
    by (auto simp: newCertification_def Let_def obj_get_ensureBucket)
qed

lemma newCertification_reading:
  assumes "newCertification md issueMonth credential = Inr md'"
    and "g emptyBucket = 0" and "\<And>b x. g (b\<lparr>newlyCertified := x\<rparr>) = g b"
  shows "reading g md' k = reading g md k"
proof (cases issueMonth)
  case None
  with assms(1) show ?thesis by (simp add: newCertification_def)
next
  case (Some m)
  show ?thesis
  proof (cases "obj_get (ensureBucket md m) m")
    case (Own b)
    have "m \<noteq> ''__proto__'' \<or> md' = ensureBucket md m"
      using assms(1) Some Own by (auto simp: newCertification_def Let_def obj_set_proto)
    with assms Some Own show ?thesis
      by (auto simp: newCertification_def Let_def reading_def obj_get_obj_set
            obj_get_ensureBucket split: if_splits)
  next
    case (Inherited t)
    with assms(1) Some show ?thesis by (simp add: newCertification_def Let_def)
  next
    case Undefined
    with assms(1) Some show ?thesis by (simp add: newCertification_def Let_def)
  qed
qed


lemma expiration_other:
  assumes "g emptyBucket = 0" and "\<And>b x. g (b\<lparr>expired := x\<rparr>) = g b"
    and "\<And>b x. g (b\<lparr>lapsed := x\<rparr>) = g b"
  shows "reading g (expiration now dateOf md expDate st) k = reading g md k"
  using assms
  by (simp add: expiration_def Let_def reading_bump_other reading_ensureBucket
        split: option.splits)

lemma expiration_lapsed:
  assumes "getMonthEntry expDate = Some em" and "inheritedText em = None"
    and "statusIncludes st ''lapsed''"
  shows "reading lapsed (expiration now dateOf md expDate st) k
           = reading lapsed md k + (if k = em then 1 else 0)"
  using assms
  by (simp add: expiration_def Let_def reading_bump_same reading_bump_other
        reading_ensureBucket emptyBucket_def)

lemma expiration_expired:
  assumes "getMonthEntry expDate = Some em" and "inheritedText em = None"
    and "dateOf (orElse expDate []) = Some (fullYear now, monthIndex now)"
    and "st \<noteq> Some (JStr ''Active'')"
  shows "reading expired (expiration now dateOf md expDate st) k
           = reading expired md k + (if k = em then 1 else 0)"
  using assms
  by (simp add: expiration_def Let_def reading_bump_same reading_bump_other
        reading_ensureBucket emptyBucket_def)

lemma ethics_other:
  assumes "g emptyBucket = 0" and "\<And>b x. g (b\<lparr>ethicsViolations := x\<rparr>) = g b"
  shows "reading g (ethics now md issueMonth st) k = reading g md k"
  using assms by (simp add: ethics_def Let_def reading_bump_other)

lemma ethics_counted:
  assumes "statusIncludes st ''ethics''"
    and "inheritedText (case issueMonth of Some m \<Rightarrow> m | None \<Rightarrow> isoMonth now) = None"
  shows "reading ethicsViolations (ethics now md issueMonth st) k
           = reading ethicsViolations md k
             + (if k = (case issueMonth of Some m \<Rightarrow> m | None \<Rightarrow> isoMonth now) then 1 else 0)"
  using assms by (simp add: ethics_def Let_def reading_bump_same emptyBucket_def)


lemma status_Expired:
  "\<not> statusIncludes (Some (JStr ''Expired'')) ''lapsed''"
  "\<not> statusIncludes (Some (JStr ''Expired'')) ''ethics''"
  by code_simp+

lemma status_Lapsed_Ethics:
  "statusIncludes (Some (JStr ''Lapsed-Ethics'')) ''lapsed''"
  "statusIncludes (Some (JStr ''Lapsed-Ethics'')) ''ethics''"
  by code_simp+


lemma isoMonth_june2024: "isoMonth june2024 = ''2024-06''"
  by code_simp


lemma month_of_june_first: "getMonthEntry (Some (JStr ''2024-06-01'')) = Some ''2024-06''"
  by (simp add: substring07_def)

lemma length_month: "getMonthEntry d = Some m \<Longrightarrow> length m \<le> 7"
  by (cases d rule: getMonthEntry.cases) (auto simp: substring07_def split: if_splits)

lemma inherited_names:
  "inheritedText m \<noteq> None \<Longrightarrow> m \<in> set (''__proto__'' # objectPrototypeMethods)"
  by (simp add: inheritedText_def split: if_splits) (simp add: objectPrototypeMethods_def)

lemma inherited_names_long:
  "\<forall>k \<in> set (''__proto__'' # objectPrototypeMethods). k = ''valueOf'' \<or> 7 < length k"
  by (simp add: objectPrototypeMethods_def)

lemma short_key_ordinary:
  assumes "length m \<le> 7" and "m \<noteq> ''valueOf''"
  shows "inheritedText m = None"
proof (rule ccontr)
  assume "inheritedText m \<noteq> None"
  then have "m \<in> set (''__proto__'' # objectPrototypeMethods)" by (rule inherited_names)
  with inherited_names_long have "m = ''valueOf'' \<or> 7 < length m" by blast
  with assms show False by simp
qed

lemma ordinary_2024_06: "inheritedText ''2024-06'' = None"
  by (rule short_key_ordinary) simp_all


lemma reading_empty: "reading g [] m = 0"
  by (simp add: reading_def obj_get_def split: option.splits)

text \<open>
  Claim C4: with the clock at 2024-06-15, a record with \<open>EXP DATE\<close> 2024-06-01 and \<open>STATUS\<close>
  \<open>Expired\<close> adds one to \<open>expired\<close> in the bucket \<open>2024-06\<close>; a record with \<open>STATUS\<close>
  \<open>Lapsed-Ethics\<close> adds one to \<open>ethicsViolations\<close> in the bucket of its issue month, or of
  the current month when it has no issue date, and one to \<open>lapsed\<close> in the bucket of its
  expiration month. This is a property of one step of the \<open>forEach\<close>, from any
  \<open>monthlyData\<close>, for an engine that reads 2024-06-01 as a day of June 2024. The step
  returns unless the issue month is \<open>valueOf\<close>, the one month key that \<open>Object.prototype\<close>
  defines; the same key as expiration month has no bucket.
\<close>

theorem trend_counters:
  assumes "dateOf ''2024-06-01'' = Some (2024, 5)"
    and "getMonthEntry (field c ''ISSUE DATE'') \<noteq> Some ''valueOf''"
  shows "\<exists>md'. trendStep june2024 dateOf md c = Inr md'
     \<and> (field c ''EXP DATE'' = Some (JStr ''2024-06-01'') \<and> field c ''STATUS'' = Some (JStr ''Expired'')
          \<longrightarrow> reading expired md' ''2024-06'' = reading expired md ''2024-06'' + 1)
     \<and> (field c ''STATUS'' = Some (JStr ''Lapsed-Ethics'')
          \<longrightarrow> reading ethicsViolations md' (violationMonth june2024 c)
                = reading ethicsViolations md (violationMonth june2024 c) + 1
            \<and> (\<forall>em. getMonthEntry (field c ''EXP DATE'') = Some em \<and> em \<noteq> ''valueOf''
                  \<longrightarrow> reading lapsed md' em = reading lapsed md em + 1))"
proof -
  let ?im = "getMonthEntry (field c ''ISSUE DATE'')"
  let ?cred = "orElse (field c ''CREDENTIAL'') ''Unknown''"
  let ?exp = "field c ''EXP DATE''"
  let ?st = "field c ''STATUS''"
  have ord_im: "inheritedText m = None" if "?im = Some m" for m
    using that assms(2) length_month[of "field c ''ISSUE DATE''" m] by (simp add: short_key_ordinary)
  from newCertification_returns[of ?im md ?cred] ord_im
  obtain md0 where nc: "newCertification md ?im ?cred = Inr md0" by blast
  let ?x = "expiration june2024 dateOf md0 ?exp ?st"
  let ?out = "ethics june2024 ?x ?im ?st"
  have step: "trendStep june2024 dateOf md c = Inr ?out"
    by (simp add: trendStep_def Let_def nc)
  have r_exp: "reading expired md0 k = reading expired md k"
    and r_lap: "reading lapsed md0 k = reading lapsed md k"
    and r_eth: "reading ethicsViolations md0 k = reading ethicsViolations md k" for k
    using newCertification_reading[OF nc] by (simp_all add: emptyBucket_def)
  have part1: "reading expired ?out ''2024-06'' = reading expired md ''2024-06'' + 1"
    if e: "?exp = Some (JStr ''2024-06-01'')" and s: "?st = Some (JStr ''Expired'')"
  proof -
    have "reading expired ?out ''2024-06'' = reading expired ?x ''2024-06''"
      by (simp add: ethics_other emptyBucket_def)
    also have "\<dots> = reading expired md0 ''2024-06'' + 1"
    proof -
      have m: "getMonthEntry ?exp = Some ''2024-06''"
        by (simp add: e substring07_def)
      have d: "dateOf (orElse ?exp []) = Some (fullYear june2024, monthIndex june2024)"
        by (simp add: e assms(1) june2024_def)
      have a: "?st \<noteq> Some (JStr ''Active'')"
        by (simp add: s)
      from expiration_expired[where dateOf = dateOf and now = june2024 and md = md0
               and k = "''2024-06''", OF m ordinary_2024_06 d a]
      show ?thesis by simp
    qed
    finally show ?thesis by (simp add: r_exp)
  qed
  have part2: "reading ethicsViolations ?out (violationMonth june2024 c)
                = reading ethicsViolations md (violationMonth june2024 c) + 1"
    if s: "?st = Some (JStr ''Lapsed-Ethics'')"
  proof -
    have vm: "violationMonth june2024 c = (case ?im of Some m \<Rightarrow> m | None \<Rightarrow> isoMonth june2024)"
      by (simp add: violationMonth_def)
    have ord: "inheritedText (case ?im of Some m \<Rightarrow> m | None \<Rightarrow> isoMonth june2024) = None"
      by (cases ?im) (simp_all add: isoMonth_june2024 ordinary_2024_06 ord_im)
    have "reading ethicsViolations ?out (violationMonth june2024 c)
            = reading ethicsViolations ?x (violationMonth june2024 c) + 1"
      using ethics_counted[OF _ ord, of ?st ?x "violationMonth june2024 c"]
      by (simp add: s status_Lapsed_Ethics vm)
    also have "reading ethicsViolations ?x (violationMonth june2024 c)
                 = reading ethicsViolations md0 (violationMonth june2024 c)"
      by (simp add: expiration_other emptyBucket_def)
    finally show ?thesis by (simp add: r_eth)
  qed
  have part3: "reading lapsed ?out em = reading lapsed md em + 1"
    if s: "?st = Some (JStr ''Lapsed-Ethics'')" and m: "getMonthEntry ?exp = Some em"
      and v: "em \<noteq> ''valueOf''" for em
  proof -
    from m v have ord: "inheritedText em = None"
      using length_month[of ?exp em] by (simp add: short_key_ordinary)
    have "reading lapsed ?out em = reading lapsed ?x em"
      by (simp add: ethics_other emptyBucket_def)
    also have "\<dots> = reading lapsed md0 em + 1"
      using expiration_lapsed[OF m ord, of ?st june2024 dateOf md0 em]
      by (simp add: s status_Lapsed_Ethics)
    finally show ?thesis by (simp add: r_lap)
  qed
  from step part1 part2 part3 show ?thesis by blast
qed

theorem trend_counters_witness:
  "isoDates ''2024-06-01'' = Some (2024, 5)
 \<and> getMonthEntry (field [(''EXP DATE'', JStr ''2024-06-01''), (''STATUS'', JStr ''Expired'')] ''ISSUE DATE'')
      \<noteq> Some ''valueOf''
 \<and> (\<exists>md'. trendStep june2024 isoDates []
              [(''EXP DATE'', JStr ''2024-06-01''), (''STATUS'', JStr ''Expired'')] = Inr md'
          \<and> reading expired md' ''2024-06'' = 1)
 \<and> getMonthEntry (field [(''EXP DATE'', JStr ''2023-01-15''), (''STATUS'', JStr ''Lapsed-Ethics'')] ''ISSUE DATE'')
      \<noteq> Some ''valueOf''
 \<and> (\<exists>md'. trendStep june2024 isoDates []
              [(''EXP DATE'', JStr ''2023-01-15''), (''STATUS'', JStr ''Lapsed-Ethics'')] = Inr md'
          \<and> reading ethicsViolations md' ''2024-06'' = 1
          \<and> reading lapsed md' ''2023-01'' = 1)"
proof -
  let ?c1 = "[(''EXP DATE'', JStr ''2024-06-01''), (''STATUS'', JStr ''Expired'')]"
  let ?c2 = "[(''EXP DATE'', JStr ''2023-01-15''), (''STATUS'', JStr ''Lapsed-Ethics'')]"
  have h1: "isoDates ''2024-06-01'' = Some (2024, 5)" by (simp add: isoDates_def)
  have h2: "getMonthEntry (field ?c1 ''ISSUE DATE'') \<noteq> Some ''valueOf''"
    and h3: "getMonthEntry (field ?c2 ''ISSUE DATE'') \<noteq> Some ''valueOf''"
    by (simp_all add: field_def)
  have f1: "field ?c1 ''EXP DATE'' = Some (JStr ''2024-06-01'') \<and> field ?c1 ''STATUS'' = Some (JStr ''Expired'')"
    by (simp add: field_def)
  have f2: "field ?c2 ''STATUS'' = Some (JStr ''Lapsed-Ethics'')"
    and f3: "getMonthEntry (field ?c2 ''EXP DATE'') = Some ''2023-01'' \<and> ''2023-01'' \<noteq> ''valueOf''"
    and f4: "violationMonth june2024 ?c2 = ''2024-06''"
    by (simp_all add: field_def substring07_def violationMonth_def isoMonth_june2024)
  from trend_counters[where dateOf = isoDates and c = ?c1 and md = "[]", OF h1 h2] f1
  have a: "\<exists>md'. trendStep june2024 isoDates [] ?c1 = Inr md' \<and> reading expired md' ''2024-06'' = 1"
    by (auto simp: reading_empty)
  from trend_counters[where dateOf = isoDates and c = ?c2 and md = "[]", OF h1 h3] f2 f3 f4
  have b: "\<exists>md'. trendStep june2024 isoDates [] ?c2 = Inr md'
             \<and> reading ethicsViolations md' ''2024-06'' = 1 \<and> reading lapsed md' ''2023-01'' = 1"
    by (auto simp: reading_empty)
  from h1 h2 a h3 b show ?thesis by blast
qed


text \<open>
  Claim C5 says that the keys of the object returned by \<open>buildMonthlyTrends\<close> are in
  ascending order as strings. The code sorts the keys and copies the buckets in that
  order into a new object, and an object enumerates keys that are array indices first
  and by number. For an issue date that gives only the year \<open>2024\<close> and a compact date
  \<open>20231201\<close>, the month keys are \<open>2024\<close> and \<open>2023120\<close>, and they come out in this order.
\<close>

theorem month_keys_out_of_order:
  "\<exists>out. buildMonthlyTrends now dateOf
            [[(''ISSUE DATE'', JStr ''2024'')], [(''ISSUE DATE'', JStr ''20231201'')]] = Inr out
         \<and> Object_keys out = [''2024'', ''2023120'']
         \<and> \<not> sorted (Object_keys out)"
proof -
  have "buildMonthlyTrends now dateOf
          [[(''ISSUE DATE'', JStr ''2024'')], [(''ISSUE DATE'', JStr ''20231201'')]]
        = Inr [(''2024'', \<lparr>newlyCertified = [(''Unknown'', Number 1)], lapsed = 0,
                           expired = 0, ethicsViolations = 0\<rparr>),
               (''2023120'', \<lparr>newlyCertified = [(''Unknown'', Number 1)], lapsed = 0,
                              expired = 0, ethicsViolations = 0\<rparr>)]"
    by code_simp
  then show ?thesis
    by (simp add: Object_keys_def)
qed

text \<open>
  The keys are in ascending order whenever none of them is an array index.
\<close>

lemma ownKeys_ensureBucket: "ownKeys md \<Longrightarrow> ownKeys (ensureBucket md m)"
  by (simp add: ensureBucket_def ownKeys_obj_set split: got.splits)

lemma ownKeys_inBucket: "ownKeys md \<Longrightarrow> ownKeys (inBucket md m f)"
  by (simp add: inBucket_def ownKeys_obj_set split: got.splits)

lemma ownKeys_newCertification:
  "ownKeys md \<Longrightarrow> newCertification md im cred = Inr md' \<Longrightarrow> ownKeys md'"
  by (auto simp: newCertification_def Let_def ownKeys_obj_set ownKeys_ensureBucket
        split: option.splits got.splits)

lemma ownKeys_expiration: "ownKeys md \<Longrightarrow> ownKeys (expiration now dateOf md expDate st)"
  by (simp add: expiration_def Let_def ownKeys_inBucket ownKeys_ensureBucket split: option.splits)

lemma ownKeys_ethics: "ownKeys md \<Longrightarrow> ownKeys (ethics now md im st)"
  by (simp add: ethics_def Let_def ownKeys_inBucket ownKeys_ensureBucket)

lemma ownKeys_trendStep:
  "ownKeys md \<Longrightarrow> trendStep now dateOf md c = Inr md' \<Longrightarrow> ownKeys md'"
  by (auto simp: trendStep_def Let_def ownKeys_ethics ownKeys_expiration
        dest: ownKeys_newCertification split: sum.splits)

lemma ownKeys_forEachTrend:
  "ownKeys md \<Longrightarrow> forEachTrend now dateOf md cs = Inr md' \<Longrightarrow> ownKeys md'"
proof (induction cs arbitrary: md)
  case Nil
  then show ?case by simp
next
  case (Cons c cs)
  then show ?case
    by (auto split: sum.splits dest: ownKeys_trendStep)
qed


lemma copyMonth_own:
  assumes "k \<in> set (map fst md)"
  shows "\<exists>b. copyMonth md acc k = obj_set acc k b"
proof -
  from assms obtain b where "map_of md k = Some b"
    by (cases "map_of md k") (auto simp: map_of_eq_None_iff)
  then show ?thesis by (auto simp: copyMonth_def obj_get_def)
qed

lemma keys_foldl_copyMonth:
  "set ks \<subseteq> set (map fst md) \<Longrightarrow> ''__proto__'' \<notin> set ks \<Longrightarrow>
   set (map fst (foldl (copyMonth md) acc ks)) = set (map fst acc) \<union> set ks"
proof (induction ks arbitrary: acc)
  case Nil
  then show ?case by simp
next
  case (Cons k ks)
  from Cons.prems copyMonth_own[of k md acc] obtain b where b: "copyMonth md acc k = obj_set acc k b"
    by auto
  from Cons.prems have "k \<noteq> ''__proto__''" by auto
  then have "set (map fst (obj_set acc k b)) = insert k (set (map fst acc))"
    by (simp add: keys_obj_set del: set_map)
  with Cons.IH[of "obj_set acc k b"] Cons.prems b show ?case
    by (simp del: set_map)
qed

lemma order_foldl_copyMonth:
  "set ks \<subseteq> set (map fst md) \<Longrightarrow> ''__proto__'' \<notin> set ks \<Longrightarrow> distinct ks \<Longrightarrow>
   \<forall>k \<in> set ks. \<not> isArrayIndex k \<Longrightarrow> set ks \<inter> set (map fst acc) = {} \<Longrightarrow>
   map fst (foldl (copyMonth md) acc ks) = map fst acc @ ks"
proof (induction ks arbitrary: acc)
  case Nil
  then show ?case by simp
next
  case (Cons k ks)
  from Cons.prems copyMonth_own[of k md acc] obtain b where b: "copyMonth md acc k = obj_set acc k b"
    by auto
  from Cons.prems have "k \<notin> fst ` set acc" and "k \<noteq> ''__proto__''" and "\<not> isArrayIndex k"
    by auto
  then have step: "obj_set acc k b = acc @ [(k, b)]"
    by (simp add: obj_set_def insertProp_append)
  from Cons.prems have "set ks \<inter> set (map fst (acc @ [(k, b)])) = {}"
    by auto
  with Cons.IH[of "acc @ [(k, b)]"] Cons.prems b step show ?case
    by simp
qed

lemma keys_formatMonthlyData:
  assumes "ownKeys md"
  shows "set (Object_keys (formatMonthlyData md)) = set (Object_keys md)"
  using assms keys_foldl_copyMonth[of "sort (map fst md)" md "[]"]
  by (simp add: formatMonthlyData_def Object_keys_def ownKeys_def del: set_map)

lemma order_formatMonthlyData:
  assumes "ownKeys md" and "\<forall>k \<in> set (Object_keys md). \<not> isArrayIndex k"
  shows "Object_keys (formatMonthlyData md) = sort (Object_keys md)"
  using assms order_foldl_copyMonth[of "sort (map fst md)" md "[]"]
  by (simp add: formatMonthlyData_def Object_keys_def ownKeys_def del: set_map)

lemma month_keys_sorted:
  assumes "buildMonthlyTrends now dateOf allCertifications = Inr out"
    and "\<forall>k \<in> set (Object_keys out). \<not> isArrayIndex k"
  shows "sorted (Object_keys out)"
proof -
  from assms(1) obtain md where run: "forEachTrend now dateOf [] allCertifications = Inr md"
    and out: "out = formatMonthlyData md"
    by (auto simp: buildMonthlyTrends_def split: sum.splits)
  have "ownKeys ([] :: bucket obj)" by (simp add: ownKeys_def)
  from ownKeys_forEachTrend[OF this run] have own: "ownKeys md" .
  from assms(2) have "\<forall>k \<in> set (Object_keys md). \<not> isArrayIndex k"
    unfolding out keys_formatMonthlyData[OF own] .
  from order_formatMonthlyData[OF own this] show ?thesis
    by (simp add: out)
qed


end
